theory Spec2Isabelle
  imports Complex_Main "HOL-Library.AList" "HOL-Library.Product_Lexorder"
begin

section \<open>Data model\<close>

text \<open>
  The program is a dashboard over one pandas DataFrame.  A cell of the frame, a filter
  value, a default (sentinel) argument and the result of an aggregation are all Python
  values; they share one datatype.  \<open>NaN\<close> is the missing value of pandas, \<open>PyNone\<close> is
  Python's \<open>None\<close>, \<open>Int64\<close> is an integer (the cells of a column of dtype int64, and a
  Python \<open>int\<close>), \<open>Num\<close> is a finite float, \<open>Infty True\<close> and \<open>Infty False\<close> are the floats
  plus and minus infinity, \<open>Str\<close> is a string.  A finite float is idealised as a real:
  the rounding of a finite result to the nearest float is not modelled, its overflow to
  an infinity is.
\<close>

datatype val = PyNone | NaN | Num real | Infty bool | Int64 int | Str string

datatype error = ReadError | TypeError | ValueError | KeyError

text \<open>
  A Series is the list of its cells; a DataFrame is the ordered list of its named columns.
  The functions of pandas are given by what they compute on these values.  Where the
  result depends on a routine of the library that the program does not fix (how a text is
  read as a number, the order among entries of equal count, the order of the groups), the
  routine is a parameter of the definition.  An exception is a value of type \<open>error\<close>.
\<close>

type_synonym series = "val list"
type_synonym table = "(string \<times> series) list"

text \<open>\<open>pd.isna\<close> on one cell.\<close>

fun isna :: "val \<Rightarrow> bool" where
  "isna NaN = True"
| "isna PyNone = True"
| "isna _ = False"

text \<open>Python's truth value of an object (\<open>if x\<close>, \<open>x or y\<close>); \<open>bool(float('nan'))\<close> is \<open>True\<close>.\<close>

fun truthy :: "val \<Rightarrow> bool" where
  "truthy PyNone = False"
| "truthy NaN = True"
| "truthy (Num x) = (x \<noteq> 0)"
| "truthy (Infty b) = True"
| "truthy (Int64 i) = (i \<noteq> 0)"
| "truthy (Str s) = (s \<noteq> [])"

fun is_str :: "val \<Rightarrow> bool" where
  "is_str (Str s) = True"
| "is_str _ = False"

fun str_of :: "val \<Rightarrow> string" where
  "str_of (Str s) = s"
| "str_of _ = []"

fun is_int :: "val \<Rightarrow> bool" where
  "is_int (Int64 i) = True"
| "is_int _ = False"

fun int_of :: "val \<Rightarrow> int" where
  "int_of (Int64 i) = i"
| "int_of _ = 0"

fun is_inf :: "val \<Rightarrow> bool" where
  "is_inf (Infty b) = True"
| "is_inf _ = False"

text \<open>A column has dtype int64 when all its cells are integers; it has then no missing cell.\<close>

definition is_int64 :: "series \<Rightarrow> bool" where
  "is_int64 vs = (vs \<noteq> [] \<and> list_all is_int vs)"

section \<open>Float and int64 arithmetic\<close>

text \<open>The largest finite float64, and the float a real result becomes.\<close>

definition float_max :: real where
  "float_max = 2 ^ 1024 - 2 ^ 971"

definition fl :: "real \<Rightarrow> val" where
  "fl x = (if float_max < x then Infty True else if x < - float_max then Infty False else Num x)"

text \<open>The float an integer or a missing cell stands for in float arithmetic.\<close>

fun as_float :: "val \<Rightarrow> val" where
  "as_float (Int64 i) = Num (of_int i)"
| "as_float PyNone = NaN"
| "as_float v = v"

text \<open>IEEE addition: an infinity absorbs a finite number, opposite infinities give \<open>NaN\<close>.\<close>

fun fadd :: "val \<Rightarrow> val \<Rightarrow> val" where
  "fadd (Num x) (Num y) = fl (x + y)"
| "fadd (Num x) (Infty b) = Infty b"
| "fadd (Infty a) (Num y) = Infty a"
| "fadd (Infty a) (Infty b) = (if a = b then Infty a else NaN)"
| "fadd u v = NaN"

text \<open>
  IEEE division of floats (the sign of a zero is not modelled: a zero divisor counts as
  \<open>+0\<close>).
\<close>

fun fdiv :: "val \<Rightarrow> val \<Rightarrow> val" where
  "fdiv (Num y) (Num x) =
     (if x = 0 then (if 0 < y then Infty True else if y < 0 then Infty False else NaN)
      else fl (y / x))"
| "fdiv (Infty b) (Num x) = Infty (b = (0 \<le> x))"
| "fdiv (Num y) (Infty a) = Num 0"
| "fdiv (Infty b) (Infty a) = NaN"
| "fdiv u v = NaN"

text \<open>The sum of int64 numbers wraps around without an error.\<close>

definition wrap64 :: "int \<Rightarrow> int" where
  "wrap64 i = (i + 2 ^ 63) mod 2 ^ 64 - 2 ^ 63"

section \<open>Safe aggregation of one series\<close>

text \<open>
  \<open>Series.sum()\<close> and \<open>Series.mean()\<close> with the default \<open>skipna=True\<close>.  On floats the
  missing cells are replaced by 0 and the cells are added from the first to the last; the
  mean divides the float sum by the number of non-missing cells.  The sum of an int64
  column is an int64 and wraps around.  Adding a string to a number raises
  \<open>TypeError\<close>; the sum of a series of strings only is their concatenation, and its mean
  raises \<open>TypeError\<close>.
\<close>

definition fill0 :: "val \<Rightarrow> val" where
  "fill0 v = (if isna v then Num 0 else as_float v)"

definition fsum :: "series \<Rightarrow> val" where
  "fsum vs = foldl fadd (Num 0) (map fill0 vs)"

definition nansum :: "series \<Rightarrow> error + val" where
  "nansum vs = (if list_ex is_str vs then Inl TypeError else Inr (fsum vs))"

definition notna_count :: "series \<Rightarrow> nat" where
  "notna_count vs = length vs - length (filter isna vs)"

definition series_sum :: "series \<Rightarrow> error + val" where
  "series_sum vs =
     (if vs \<noteq> [] \<and> list_all is_str vs then Inr (Str (concat (map str_of vs)))
      else if is_int64 vs then Inr (Int64 (wrap64 (sum_list (map int_of vs))))
      else nansum vs)"

definition series_mean :: "series \<Rightarrow> error + val" where
  "series_mean vs =
     (case nansum vs of
        Inl e \<Rightarrow> Inl e
      | Inr t \<Rightarrow> if notna_count vs = 0 then Inr NaN
                else Inr (fdiv t (Num (real (notna_count vs)))))"

text \<open>
  \<^verbatim>\<open>
  def safe_metric_calculation(series, operation='mean', default=None):
      if series.empty or series.isna().all():
          return default
      try:
          if operation == 'mean':  return series.mean()
          elif operation == 'sum': return series.sum()
          else:                    return default
      except Exception:
          return default
  \<close>
\<close>

definition safe_metric_calculation :: "series \<Rightarrow> string \<Rightarrow> val \<Rightarrow> val" where
  "safe_metric_calculation series operation dflt =
     (if series = [] \<or> list_all isna series then dflt
      else if operation = ''mean'' then
        (case series_mean series of Inl e \<Rightarrow> dflt | Inr v \<Rightarrow> v)
      else if operation = ''sum'' then
        (case series_sum series of Inl e \<Rightarrow> dflt | Inr v \<Rightarrow> v)
      else dflt)"

text \<open>
  The reading of the specification: the numbers of a series are its non-missing entries;
  the mean divides their sum by how many they are.
\<close>

fun present :: "series \<Rightarrow> real list" where
  "present [] = []"
| "present (Num x # vs) = x # present vs"
| "present (Int64 i # vs) = of_int i # present vs"
| "present (v # vs) = present vs"

definition spec_sum :: "series \<Rightarrow> real" where
  "spec_sum vs = sum_list (present vs)"

definition spec_mean :: "series \<Rightarrow> real" where
  "spec_mean vs = sum_list (present vs) / real (length (present vs))"

text \<open>A numeric series (dtype float64 or int64): every cell is a number or missing.\<close>

definition numeric :: "series \<Rightarrow> bool" where
  "numeric vs = list_all (\<lambda>v. \<not> is_str v) vs"

text \<open>
  A series of finite numbers: no cell is a string or an infinity.  Its sums stay in range
  when the absolute values add up to at most the largest float and, for an int64 column,
  to less than \<open>2^63\<close>: then no order of adding them overflows or wraps.
\<close>

definition finite_series :: "series \<Rightarrow> bool" where
  "finite_series vs = list_all (\<lambda>v. \<not> is_str v \<and> \<not> is_inf v) vs"

definition in_range :: "series \<Rightarrow> bool" where
  "in_range vs =
     (sum_list (map abs (present vs)) \<le> float_max
      \<and> (is_int64 vs \<longrightarrow> sum_list (map abs (present vs)) < 2 ^ 63))"

section \<open>Tables\<close>

definition columns :: "table \<Rightarrow> string list" where
  "columns df = map fst df"

definition nrows :: "table \<Rightarrow> nat" where
  "nrows df = (case df of [] \<Rightarrow> 0 | (n, vs) # rest \<Rightarrow> length vs)"

text \<open>\<open>df.empty\<close>: one of the two axes has length 0.\<close>

definition df_empty :: "table \<Rightarrow> bool" where
  "df_empty df = (columns df = [] \<or> nrows df = 0)"

text \<open>
  A DataFrame as \<open>pd.read_csv\<close> builds it: the column labels are pairwise different and
  all columns have the same length.
\<close>

definition wf_table :: "table \<Rightarrow> bool" where
  "wf_table df = (distinct (columns df) \<and> list_all (\<lambda>(n, vs). length vs = nrows df) df)"

text \<open>\<open>df[col]\<close> for a label that occurs once; a label that is absent raises \<open>KeyError\<close>.\<close>

definition getcol :: "table \<Rightarrow> string \<Rightarrow> error + series" where
  "getcol df col = (case map_of df col of None \<Rightarrow> Inl KeyError | Some vs \<Rightarrow> Inr vs)"

text \<open>Boolean indexing \<open>x[mask]\<close>: the entries at the positions where the mask is true, in order.\<close>

fun select :: "bool list \<Rightarrow> 'a list \<Rightarrow> 'a list" where
  "select (b # bs) (x # xs) = (if b then x # select bs xs else select bs xs)"
| "select bs xs = []"

definition take_rows :: "bool list \<Rightarrow> table \<Rightarrow> table" where
  "take_rows msk df = map (\<lambda>(n, vs). (n, select msk vs)) df"

section \<open>Loading and normalising the data\<close>

text \<open>
  The alias table of \<open>load_data\<close>, in the order of the dictionary literal.
\<close>

definition rename_map :: "(string \<times> string) list" where
  "rename_map =
     [(''year'', ''Year''), (''Year'', ''Year''),
      (''month'', ''Month''), (''Month'', ''Month''),
      (''month_name'', ''Month Name''), (''Month Name'', ''Month Name''),
      (''country'', ''Country''), (''Country'', ''Country''),
      (''city'', ''City''), (''City'', ''City''),
      (''region'', ''Region''), (''Region'', ''Region''),
      (''operator'', ''Operator''), (''Operator'', ''Operator''),
      (''aircraft'', ''Aircraft''), (''Aircraft'', ''Aircraft''),
      (''aircraft_manufacturer'', ''Aircraft Manufacturer''),
      (''Aircraft Manufacturer'', ''Aircraft Manufacturer''),
      (''aboard'', ''Aboard''), (''Aboard'', ''Aboard''),
      (''fatalities_(air)'', ''Fatalities (Air)''), (''Fatalities (Air)'', ''Fatalities (Air)''),
      (''ground'', ''Ground''), (''Ground'', ''Ground'')]"

text \<open>
  \<open>df.rename(columns=m)\<close>: a label that is a key of \<open>m\<close> is replaced by its value, any
  other label is kept.  Nothing checks that the new labels are different.
\<close>

definition rename_columns :: "(string \<times> string) list \<Rightarrow> table \<Rightarrow> table" where
  "rename_columns m df =
     map (\<lambda>(n, vs). (case map_of m n of Some n' \<Rightarrow> n' | None \<Rightarrow> n, vs)) df"

definition numeric_cols :: "string list" where
  "numeric_cols = [''Year'', ''Month'', ''Aboard'', ''Fatalities (Air)'', ''Ground'']"

text \<open>
  \<open>pd.to_numeric(series, errors="coerce")\<close>.  How the library reads a string as a number
  is taken as the parameter \<open>parse\<close>, which gives an integer, a float or nothing; a
  string it cannot read becomes \<open>NaN\<close>.  The result has dtype int64 when every cell is an
  integer, and is a column of floats otherwise.
\<close>

fun to_numeric_cell :: "(string \<Rightarrow> val option) \<Rightarrow> val \<Rightarrow> val" where
  "to_numeric_cell parse (Num x) = Num x"
| "to_numeric_cell parse (Int64 i) = Int64 i"
| "to_numeric_cell parse (Infty b) = Infty b"
| "to_numeric_cell parse (Str s) =
     (case parse s of
        Some (Num x) \<Rightarrow> Num x
      | Some (Int64 i) \<Rightarrow> Int64 i
      | Some (Infty b) \<Rightarrow> Infty b
      | _ \<Rightarrow> NaN)"
| "to_numeric_cell parse v = NaN"

definition unify_dtype :: "series \<Rightarrow> series" where
  "unify_dtype vs = (if list_all is_int vs then vs else map as_float vs)"

definition to_numeric :: "(string \<Rightarrow> val option) \<Rightarrow> series \<Rightarrow> series" where
  "to_numeric parse vs = unify_dtype (map (to_numeric_cell parse) vs)"

text \<open>
  One round of the loop over \<open>numeric_cols\<close>:
  \<^verbatim>\<open>
  if col in df.columns:
      df[col] = pd.to_numeric(df[col], errors="coerce")
  \<close>
  When the label occurs more than once, \<open>df[col]\<close> is a DataFrame and \<open>pd.to_numeric\<close>
  raises \<open>TypeError\<close>.
\<close>

definition coerce_column :: "(string \<Rightarrow> val option) \<Rightarrow> string \<Rightarrow> table \<Rightarrow> error + table" where
  "coerce_column parse col df =
     (if col \<in> set (columns df) then
        (if 1 < count_list (columns df) col then Inl TypeError
         else case getcol df col of
                Inl e \<Rightarrow> Inl e
              | Inr vs \<Rightarrow> Inr (AList.update col (to_numeric parse vs) df))
      else Inr df)"

fun coerce_columns :: "(string \<Rightarrow> val option) \<Rightarrow> string list \<Rightarrow> table \<Rightarrow> error + table" where
  "coerce_columns parse [] df = Inr df"
| "coerce_columns parse (col # cols) df =
     (case coerce_column parse col df of
        Inl e \<Rightarrow> Inl e
      | Inr df' \<Rightarrow> coerce_columns parse cols df')"

definition month_names :: "(real \<times> string) list" where
  "month_names =
     [(1, ''January''), (2, ''February''), (3, ''March''), (4, ''April''),
      (5, ''May''), (6, ''June''), (7, ''July''), (8, ''August''),
      (9, ''September''), (10, ''October''), (11, ''November''), (12, ''December'')]"

text \<open>
  \<open>Series.map(month_names)\<close> on one cell: a value that is no key of the dictionary gives
  \<open>NaN\<close>; the integer 3 and the float 3.0 are the same key.
\<close>

fun month_name_cell :: "val \<Rightarrow> val" where
  "month_name_cell (Num x) = (case map_of month_names x of Some s \<Rightarrow> Str s | None \<Rightarrow> NaN)"
| "month_name_cell (Int64 i) =
     (case map_of month_names (of_int i) of Some s \<Rightarrow> Str s | None \<Rightarrow> NaN)"
| "month_name_cell v = NaN"

definition add_month_name :: "table \<Rightarrow> error + table" where
  "add_month_name df =
     (if ''Month Name'' \<notin> set (columns df) \<and> ''Month'' \<in> set (columns df) then
        (case getcol df ''Month'' of
           Inl e \<Rightarrow> Inl e
         | Inr ms \<Rightarrow> Inr (AList.update ''Month Name'' (map month_name_cell ms) df))
      else Inr df)"

text \<open>\<open>Series.clip(lower, upper)\<close> on one float; \<open>NaN\<close> stays \<open>NaN\<close>.\<close>

definition clip :: "real \<Rightarrow> real \<Rightarrow> real \<Rightarrow> real" where
  "clip x lower upper = min (max x lower) upper"

fun clip_cell :: "val \<Rightarrow> real \<Rightarrow> real \<Rightarrow> val" where
  "clip_cell (Num x) lower upper = Num (clip x lower upper)"
| "clip_cell (Infty b) lower upper = Num (if b then upper else lower)"
| "clip_cell v lower upper = NaN"

text \<open>\<open>1 - x\<close> for a float between 0 and 1 or \<open>NaN\<close>.\<close>

fun one_minus :: "val \<Rightarrow> val" where
  "one_minus (Num x) = Num (1 - x)"
| "one_minus v = NaN"

text \<open>\<open>x > 0\<close> on a numeric cell; a comparison of a missing value is false.\<close>

fun gt0 :: "val \<Rightarrow> bool" where
  "gt0 (Num x) = (0 < x)"
| "gt0 (Int64 i) = (0 < i)"
| "gt0 (Infty b) = b"
| "gt0 v = False"

text \<open>
  One entry of
  \<^verbatim>\<open>
  np.where((df['Aboard'] > 0) & (df['Fatalities (Air)'].notna()),
           1 - (df['Fatalities (Air)'] / df['Aboard']).clip(0, 1),
           np.nan)
  \<close>
  from the cell of \<open>Aboard\<close> and the cell of \<open>Fatalities (Air)\<close>.  \<open>np.where\<close> chooses
  entry by entry.  The quotient of two infinities is \<open>NaN\<close>, and \<open>NaN\<close> passes \<open>clip\<close>
  and the subtraction.  Comparing or dividing a string raises \<open>TypeError\<close>.
\<close>

fun survival_rate_cell :: "val \<Rightarrow> val \<Rightarrow> error + val" where
  "survival_rate_cell (Str a) f = Inl TypeError"
| "survival_rate_cell a (Str f) = Inl TypeError"
| "survival_rate_cell a f =
     Inr (if gt0 a \<and> \<not> isna f
          then one_minus (clip_cell (fdiv (as_float f) (as_float a)) 0 1)
          else NaN)"

fun survival_rate_series :: "series \<Rightarrow> series \<Rightarrow> error + series" where
  "survival_rate_series (a # as) (f # fs) =
     (case survival_rate_cell a f of
        Inl e \<Rightarrow> Inl e
      | Inr v \<Rightarrow> (case survival_rate_series as fs of
                   Inl e \<Rightarrow> Inl e
                 | Inr vs \<Rightarrow> Inr (v # vs)))"
| "survival_rate_series as fs = Inr []"

definition add_survival_rate :: "table \<Rightarrow> error + table" where
  "add_survival_rate df =
     (if list_all (\<lambda>c. c \<in> set (columns df)) [''Aboard'', ''Fatalities (Air)''] then
        (case getcol df ''Aboard'' of
           Inl e \<Rightarrow> Inl e
         | Inr ab \<Rightarrow>
             (case getcol df ''Fatalities (Air)'' of
                Inl e \<Rightarrow> Inl e
              | Inr fa \<Rightarrow>
                  (case survival_rate_series ab fa of
                     Inl e \<Rightarrow> Inl e
                   | Inr sr \<Rightarrow> Inr (AList.update ''Survival Rate'' sr df))))
      else Inr df)"

text \<open>The body of the \<open>try\<close> block of \<open>load_data\<close>, after \<open>pd.read_csv\<close> has returned \<open>raw\<close>.\<close>

definition load_data_body :: "(string \<Rightarrow> val option) \<Rightarrow> table \<Rightarrow> error + table" where
  "load_data_body parse raw =
     (let df = rename_columns (filter (\<lambda>(k, v). k \<in> set (columns raw)) rename_map) raw
      in case coerce_columns parse numeric_cols df of
           Inl e \<Rightarrow> Inl e
         | Inr df1 \<Rightarrow>
             (case add_month_name df1 of
                Inl e \<Rightarrow> Inl e
              | Inr df2 \<Rightarrow> add_survival_rate df2))"

text \<open>
  What the user interface is asked to show, in order.  \<open>ErrorLoadingData e\<close> stands for
  \<open>st.error(f"Error loading data: {str(e)}")\<close>.
\<close>

datatype event =
    ErrorLoadingData error
  | StError string
  | StWarning string
  | ApplyFilters "(string \<times> val) list"
  | Header
  | RenderPage string table
  | Uncaught error

text \<open>
  \<open>load_data\<close>: \<open>csv\<close> is the outcome of \<open>pd.read_csv(path)\<close>, an exception or the table
  read.  Every exception of the body is caught, reported and answered by the empty
  DataFrame \<open>pd.DataFrame()\<close>, which has no column and no row.
\<close>

definition load_data :: "(string \<Rightarrow> val option) \<Rightarrow> error + table \<Rightarrow> table \<times> event list" where
  "load_data parse csv =
     (case csv of
        Inl e \<Rightarrow> ([], [ErrorLoadingData e])
      | Inr raw \<Rightarrow>
          (case load_data_body parse raw of
             Inl e \<Rightarrow> ([], [ErrorLoadingData e])
           | Inr df \<Rightarrow> (df, [])))"

section \<open>Safe aggregation by group\<close>

text \<open>
  The default of the parameter \<open>default\<close> of \<open>safe_groupby_operation\<close>, and the text shown
  for a KPI that is not available: the bytes of the string literal of the source file.
\<close>

definition dash :: string where
  "dash = [CHR 0xC3, CHR 0xA2, CHR 0xE2, CHR 0x82, CHR 0xAC, CHR 0xE2, CHR 0x80, CHR 0x9C]"















text \<open>The three records of the example of the specification, as \<open>load_data\<close> returns them.\<close>

definition example_table :: table where
  "example_table =
     [(''Year'', [Int64 1985, Int64 1985, Int64 1990]),
      (''Aboard'', [Int64 100, Int64 50, Int64 200]),
      (''Fatalities (Air)'', [Int64 20, Int64 50, Int64 0]),
      (''Country'', [Str ''USA'', Str ''USA'', Str ''UK'']),
      (''Survival Rate'', [Num (4 / 5), Num 0, Num 1])]"

section \<open>Filtering\<close>

text \<open>
  \<open>fdf[filter_name] == filter_value\<close> for a scalar value: entry by entry, a missing cell
  equals nothing, a number equals the same number (the integer 1985 and the float 1985.0
  are equal), a string the same string.
\<close>

fun same_value :: "val \<Rightarrow> val \<Rightarrow> bool" where
  "same_value (Int64 i) (Num x) = (of_int i = x)"
| "same_value (Num x) (Int64 i) = (x = of_int i)"
| "same_value c v = (c = v)"

definition cell_eq :: "val \<Rightarrow> val \<Rightarrow> bool" where
  "cell_eq c v = (\<not> isna c \<and> same_value c v)"

definition series_eq :: "series \<Rightarrow> val \<Rightarrow> bool list" where
  "series_eq vs v = map (\<lambda>c. cell_eq c v) vs"

text \<open>
  The statement in the \<open>try\<close> block, \<open>fdf[fdf[filter_name] == filter_value]\<close>.  For a label
  that occurs once, \<open>fdf[filter_name]\<close> is a Series and the rows where the comparison is
  true are selected.  For a label that occurs more than once it is a DataFrame, and so is
  the comparison: indexing with it has to align its columns with those of \<open>fdf\<close>, which
  raises \<open>ValueError\<close> when \<open>fdf\<close> has another label; when all columns have the label, the
  cells where the comparison is false are replaced by \<open>NaN\<close> (\<open>DataFrame.where\<close>), which turns
  a column of integers into floats.
\<close>

definition filter_rows :: "table \<Rightarrow> string \<Rightarrow> val \<Rightarrow> error + table" where
  "filter_rows fdf filter_name filter_value =
     (if 1 < count_list (columns fdf) filter_name then
        (if \<exists>c \<in> set (columns fdf). c \<noteq> filter_name then Inl ValueError
         else Inr (map (\<lambda>(n, vs).
                     (n, unify_dtype (map (\<lambda>c. if cell_eq c filter_value then c else NaN) vs)))
                   fdf))
      else
        (case getcol fdf filter_name of
           Inl e \<Rightarrow> Inl e
         | Inr col \<Rightarrow> Inr (take_rows (series_eq col filter_value) fdf)))"

text \<open>
  One round of the loop of \<open>apply_filters\<close>; \<open>df\<close> is the argument, \<open>fdf\<close> the frame
  filtered so far.  An exception of the round leaves \<open>fdf\<close> as it is.
  \<^verbatim>\<open>
  if filter_value != "All" and filter_name in df.columns:
      try:
          fdf = fdf[fdf[filter_name] == filter_value]
      except Exception:
          continue
  \<close>
\<close>

definition filter_step :: "table \<Rightarrow> table \<Rightarrow> string \<times> val \<Rightarrow> table" where
  "filter_step df fdf p =
     (case p of (filter_name, filter_value) \<Rightarrow>
        if filter_value \<noteq> Str ''All'' \<and> filter_name \<in> set (columns df) then
          (case filter_rows fdf filter_name filter_value of
             Inl e \<Rightarrow> fdf
           | Inr fdf' \<Rightarrow> fdf')
        else fdf)"

text \<open>
  \<open>apply_filters(df, filters)\<close>; the dictionary \<open>filters\<close> is the list of its items in
  insertion order, the order in which the loop visits them.
\<close>

definition apply_filters :: "table \<Rightarrow> (string \<times> val) list \<Rightarrow> table" where
  "apply_filters df filters = foldl (filter_step df) df filters"

text \<open>A predicate that constrains the rows of \<open>df\<close>: its value is not the wildcard and its column exists.\<close>

definition active :: "table \<Rightarrow> string \<times> val \<Rightarrow> bool" where
  "active df p = (snd p \<noteq> Str ''All'' \<and> fst p \<in> set (columns df))"

text \<open>The cell of row \<open>i\<close> in column \<open>col\<close>.\<close>

definition cell :: "table \<Rightarrow> string \<Rightarrow> nat \<Rightarrow> val" where
  "cell df col i = (case map_of df col of None \<Rightarrow> NaN | Some vs \<Rightarrow> vs ! i)"




definition row_matches :: "table \<Rightarrow> (string \<times> val) list \<Rightarrow> nat \<Rightarrow> bool" where
  "row_matches df filters i =
     (\<forall>p \<in> set filters. active df p \<longrightarrow> cell_eq (cell df (fst p) i) (snd p))"

section \<open>The overview KPIs\<close>

text \<open>\<open>fdf.get(col, pd.Series())\<close>: the column, or an empty series when the label is absent.\<close>

definition fdf_get :: "table \<Rightarrow> string \<Rightarrow> series" where
  "fdf_get fdf col = (case map_of fdf col of None \<Rightarrow> [] | Some vs \<Rightarrow> vs)"

text \<open>
  The text handed to \<open>st.metric\<close>: a literal string, or a number formatted with one
  decimal (\<open>f"{x:.1f}"\<close>), or such a number followed by the percent sign.
\<close>

datatype metric_text = Literal string | OneDecimal real | OneDecimalPercent real

text \<open>\<open>f"{x:.1f}"\<close>: a number is formatted; \<open>None\<close> and strings do not accept the format.\<close>

fun format_1f :: "val \<Rightarrow> error + metric_text" where
  "format_1f (Num x) = Inr (OneDecimal x)"
| "format_1f (Int64 i) = Inr (OneDecimal (of_int i))"
| "format_1f (Infty b) = Inr (Literal (if b then ''inf'' else ''-inf''))"
| "format_1f NaN = Inr (Literal ''nan'')"
| "format_1f PyNone = Inl TypeError"
| "format_1f (Str s) = Inl ValueError"

text \<open>\<open>f"{x*100:.1f}%"\<close>.\<close>

fun format_percent :: "val \<Rightarrow> error + metric_text" where
  "format_percent (Num x) = Inr (OneDecimalPercent (x * 100))"
| "format_percent (Int64 i) = Inr (OneDecimalPercent (of_int i * 100))"
| "format_percent (Infty b) = Inr (Literal (if b then ''inf%'' else ''-inf%''))"
| "format_percent NaN = Inr (Literal ''nan%'')"
| "format_percent PyNone = Inl TypeError"
| "format_percent (Str s) = Inl ValueError"

text \<open>
  The two KPIs of \<open>render_overview_page\<close> that are shown only when their value is true
  as a Python condition:
  \<^verbatim>\<open>
  avg_fatalities = safe_metric_calculation(fdf.get('Fatalities (Air)', pd.Series()), 'mean')
  survival_rate = safe_metric_calculation(fdf.get('Survival Rate', pd.Series()), 'mean')
  ...
  st.metric("Avg Fatalities/Incident", f"{avg_fatalities:.1f}" if avg_fatalities else "-")
  st.metric("Mean Survival Rate", f"{survival_rate*100:.1f}%" if survival_rate else "-")
  \<close>
\<close>

definition avg_fatalities_metric :: "table \<Rightarrow> error + metric_text" where
  "avg_fatalities_metric fdf =
     (let avg_fatalities = safe_metric_calculation (fdf_get fdf ''Fatalities (Air)'') ''mean'' PyNone
      in if truthy avg_fatalities then format_1f avg_fatalities else Inr (Literal dash))"

definition survival_rate_metric :: "table \<Rightarrow> error + metric_text" where
  "survival_rate_metric fdf =
     (let survival_rate = safe_metric_calculation (fdf_get fdf ''Survival Rate'') ''mean'' PyNone
      in if truthy survival_rate then format_percent survival_rate else Inr (Literal dash))"

section \<open>The main program\<close>

text \<open>\<open>str.isdigit\<close> and \<open>int\<close> on a string of ASCII digits.\<close>

definition isdigit :: "string \<Rightarrow> bool" where
  "isdigit s = (s \<noteq> [] \<and> list_all (\<lambda>c. 48 \<le> (of_char c :: nat) \<and> (of_char c :: nat) \<le> 57) s)"

definition int_of_digits :: "string \<Rightarrow> int" where
  "int_of_digits s = foldl (\<lambda>n c. 10 * n + (int (of_char c) - 48)) 0 s"

text \<open>
  The sidebar: \<open>choice\<close> gives, for each widget, the entry the user has selected among the
  options offered.  \<open>add_dropdown\<close> offers nothing for a column the table does not have.
\<close>

definition add_dropdown :: "table \<Rightarrow> string \<Rightarrow> (string \<Rightarrow> string) \<Rightarrow> string" where
  "add_dropdown df col choice = (if col \<notin> set (columns df) then ''All'' else choice col)"

definition build_filters :: "table \<Rightarrow> (string \<Rightarrow> string) \<Rightarrow> (string \<times> val) list" where
  "build_filters df choice =
     (let year = (if ''Year'' \<in> set (columns df) then choice ''Year'' else ''All'');
          month = (if ''Month Name'' \<in> set (columns df) then choice ''Month Name'' else ''All'');
          country = add_dropdown df ''Country'' choice;
          region = add_dropdown df ''Region'' choice;
          city = add_dropdown df ''City'' choice;
          operator = add_dropdown df ''Operator'' choice;
          aircraft = add_dropdown df ''Aircraft'' choice;
          aircraft_manufacturer = add_dropdown df ''Aircraft Manufacturer'' choice
      in [(''Year'', if year \<noteq> ''All'' \<and> isdigit year then Int64 (int_of_digits year)
                     else Str ''All''),
          (''Month Name'', Str month),
          (''Country'', Str country),
          (''Region'', Str region),
          (''City'', Str city),
          (''Operator'', Str operator),
          (''Aircraft'', Str aircraft),
          (''Aircraft Manufacturer'', Str aircraft_manufacturer)])"

definition pages :: "string list" where
  "pages = [''Overview'', ''Time Analysis'', ''Geography'', ''Operators'', ''Aircraft'', ''Raw Data'']"

text \<open>
  \<open>main\<close> after a successful load: the filters are built and applied, the header line
  reads \<open>df['Year']\<close> (a \<open>KeyError\<close> that nothing catches when the column is absent), an
  empty selection is answered by a warning, and otherwise the chosen page is rendered
  from the filtered table.
\<close>

definition main_body :: "table \<Rightarrow> (string \<Rightarrow> string) \<Rightarrow> event list" where
  "main_body df choice =
     (let filters = build_filters df choice;
          fdf = apply_filters df filters;
          page = choice ''Navigation''
      in ApplyFilters filters #
         (if ''Year'' \<notin> set (columns df) then [Uncaught KeyError]
          else Header #
               (if df_empty fdf then
                  [StWarning ''No data matches the current filters. Please adjust your selection.'']
                else if page \<in> set pages then [RenderPage page fdf]
                else [])))"

text \<open>
  \<^verbatim>\<open>
  def main():
      df = load_data(DATA_PATH)
      if df.empty:
          st.error("Unable to load data. Please check the file path and format.")
          return
      ...
  \<close>
\<close>

definition main :: "(string \<Rightarrow> val option) \<Rightarrow> error + table \<Rightarrow> (string \<Rightarrow> string) \<Rightarrow> event list" where
  "main parse csv choice =
     (case load_data parse csv of (df, shown) \<Rightarrow>
        if df_empty df then
          shown @ [StError ''Unable to load data. Please check the file path and format.'']
        else shown @ main_body df choice)"

text \<open>The events that stand for processing after the load: filtering, the header, a page.\<close>

fun processing :: "event \<Rightarrow> bool" where
  "processing (ApplyFilters fs) = True"
| "processing Header = True"
| "processing (RenderPage page fdf) = True"
| "processing (StWarning s) = True"
| "processing (Uncaught e) = True"
| "processing ev = False"

section \<open>Example inputs\<close>

text \<open>Two incidents without a survivor on board, and two incidents with fatalities 3 and 5.\<close>

definition no_survivors :: table where
  "no_survivors = [(''Fatalities (Air)'', [Num 0, Num 0]), (''Survival Rate'', [Num 0, Num 0])]"

definition some_survivors :: table where
  "some_survivors =
     [(''Fatalities (Air)'', [Num 3, Num 5]), (''Survival Rate'', [Num (1 / 2), Num (1 / 4)])]"

text \<open>A source file that has both the alias \<open>year\<close> and the canonical header \<open>Year\<close>.\<close>

definition clash :: table where
  "clash = [(''year'', [Str ''x'']), (''Year'', [Int64 1985])]"

text \<open>A source file with the columns of the specification's example, the numbers still as text in part.\<close>

definition example_raw :: table where
  "example_raw =
     [(''year'', [Int64 1985, Int64 1985, Int64 1990]),
      (''aboard'', [Str ''100'', Str ''50'', Str ''many'']),
      (''Fatalities (Air)'', [Int64 20, Int64 50, Int64 0]),
      (''country'', [Str ''USA'', Str ''USA'', Str ''UK''])]"

text \<open>A reader of numbers that knows the two numerals of the example.\<close>

definition example_parse :: "string \<Rightarrow> val option" where
  "example_parse s =
     (if s = ''100'' then Some (Int64 100) else if s = ''50'' then Some (Int64 50) else None)"

text \<open>A source file in which the number aboard and the fatalities of an incident are both infinite.\<close>

definition infinite_raw :: table where
  "infinite_raw = [(''Aboard'', [Infty True]), (''Fatalities (Air)'', [Infty True])]"





section \<open>The specification's reading of normalisation and of the survival rate\<close>

text \<open>
  The canonical name of a header: the exact-match lookup in the alias table, a header
  that is not in the table stays as it is.
\<close>

definition canonical :: "string \<Rightarrow> string" where
  "canonical n = (case map_of rename_map n of Some c \<Rightarrow> c | None \<Rightarrow> n)"

text \<open>\<open>Aboard > 0\<close> on one cell, and the number in a cell.\<close>

fun positive :: "val \<Rightarrow> bool" where
  "positive (Num a) = (0 < a)"
| "positive (Int64 i) = (0 < i)"
| "positive (Infty b) = b"
| "positive v = False"

fun number_in :: "val \<Rightarrow> real" where
  "number_in (Num x) = x"
| "number_in (Int64 i) = of_int i"
| "number_in v = 0"

definition clamp :: "real \<Rightarrow> real \<Rightarrow> real \<Rightarrow> real" where
  "clamp x lo hi = max lo (min hi x)"

text \<open>
  \<open>clamp(1 - Fatalities/Aboard, 0, 1)\<close> for \<open>Aboard > 0\<close>, where not both are infinite: with
  infinite fatalities \<open>1 - Fatalities/Aboard\<close> is an infinity of the opposite sign, with
  an infinite number aboard the quotient is 0.
\<close>

definition clamped_rate :: "val \<Rightarrow> val \<Rightarrow> real" where
  "clamped_rate aboard fatalities =
     (if fatalities = Infty True then 0
      else if fatalities = Infty False then 1
      else if aboard = Infty True then 1
      else clamp (1 - number_in fatalities / number_in aboard) 0 1)"

text \<open>
  The survival rate of one record: defined when \<open>Aboard > 0\<close>, the fatalities are known and
  the two are not both infinite, and then \<open>clamp(1 - Fatalities/Aboard, 0, 1)\<close>; missing
  otherwise.
\<close>

definition spec_survival_rate :: "val \<Rightarrow> val \<Rightarrow> val" where
  "spec_survival_rate aboard fatalities =
     (if positive aboard \<and> \<not> isna fatalities \<and> \<not> (is_inf aboard \<and> is_inf fatalities)
      then Num (clamped_rate aboard fatalities)
      else NaN)"

text \<open>All columns of a table have \<open>n\<close> cells.\<close>

definition all_length :: "nat \<Rightarrow> table \<Rightarrow> bool" where
  "all_length n df = list_all (\<lambda>(c, vs). length vs = n) df"


section \<open>Properties of the aggregation of one series\<close>

lemma float_max_ge_one: "1 \<le> float_max"
  by (simp add: float_max_def)

lemma fl_Num: "- float_max \<le> x \<Longrightarrow> x \<le> float_max \<Longrightarrow> fl x = Num x"
  by (simp add: fl_def)

lemma fill0_finite:
  "\<not> is_str v \<Longrightarrow> \<not> is_inf v \<Longrightarrow> fill0 v = Num (sum_list (present [v]))"
  by (cases v) (simp_all add: fill0_def)

lemma present_Cons: "present (v # vs) = present [v] @ present vs"
  by (cases v) simp_all

lemma foldl_fadd_finite:
  "finite_series vs \<Longrightarrow> \<bar>a\<bar> + sum_list (map abs (present vs)) \<le> float_max \<Longrightarrow>
   foldl fadd (Num a) (map fill0 vs) = Num (a + sum_list (present vs))"
proof (induction vs arbitrary: a)
  case Nil
  then show ?case by simp
next
  case (Cons v vs)
  let ?x = "sum_list (present [v])"
  from Cons.prems(1) have v: "\<not> is_str v" "\<not> is_inf v" and fin: "finite_series vs"
    by (simp_all add: finite_series_def)
  have ax: "\<bar>?x\<bar> = sum_list (map abs (present [v]))" by (cases v) simp_all
  have split: "sum_list (map abs (present (v # vs))) =
      sum_list (map abs (present [v])) + sum_list (map abs (present vs))"
    by (subst present_Cons) simp
  have nn: "0 \<le> sum_list (map abs (present vs))" by (rule sum_list_nonneg) auto
  from Cons.prems(2) split ax nn have b1: "\<bar>a + ?x\<bar> \<le> float_max" by linarith
  from Cons.prems(2) split ax
  have b2: "\<bar>a + ?x\<bar> + sum_list (map abs (present vs)) \<le> float_max" by linarith
  have "fadd (Num a) (fill0 v) = Num (a + ?x)"
    using b1 by (simp add: fill0_finite [OF v] fl_Num abs_le_iff)
  then have "foldl fadd (Num a) (map fill0 (v # vs)) = foldl fadd (Num (a + ?x)) (map fill0 vs)"
    by simp
  also have "\<dots> = Num (a + ?x + sum_list (present vs))" using fin b2 by (rule Cons.IH)
  also have "a + ?x + sum_list (present vs) = a + sum_list (present (v # vs))"
    by (subst (2) present_Cons) simp
  finally show ?case .
qed

lemma fsum_finite:
  "finite_series vs \<Longrightarrow> sum_list (map abs (present vs)) \<le> float_max \<Longrightarrow>
   fsum vs = Num (sum_list (present vs))"
  using foldl_fadd_finite [of vs 0] by (simp add: fsum_def)

lemma finite_no_str: "finite_series vs \<Longrightarrow> \<not> list_ex is_str vs"
  by (simp add: finite_series_def list_all_iff list_ex_iff)

lemma length_filter_isna: "length (filter isna vs) = length vs \<longleftrightarrow> list_all isna vs"
proof (induction vs)
  case Nil show ?case by simp
next
  case (Cons a vs)
  have "length (filter isna vs) \<noteq> Suc (length vs)"
    using length_filter_le [of isna vs] by linarith
  with Cons show ?case by simp
qed

lemma notna_count_zero: "notna_count vs = 0 \<longleftrightarrow> list_all isna vs"
proof -
  have "length (filter isna vs) \<le> length vs" by simp
  then have "length vs - length (filter isna vs) = 0 \<longleftrightarrow> length (filter isna vs) = length vs"
    by linarith
  then show ?thesis unfolding notna_count_def by (simp only: length_filter_isna)
qed

lemma length_present: "finite_series vs \<Longrightarrow> length (present vs) = notna_count vs"
proof (induction vs)
  case Nil
  show ?case by (simp add: notna_count_def)
next
  case (Cons v vs)
  from Cons have ih: "length (present vs) = length vs - length (filter isna vs)"
    by (simp add: finite_series_def notna_count_def)
  show ?case using Cons.prems ih
    by (cases v) (simp_all add: finite_series_def notna_count_def Suc_diff_le)
qed

lemma sum_abs_ge: "\<bar>sum_list xs\<bar> \<le> sum_list (map abs xs)" for xs :: "real list"
  by (rule sum_list_abs)

lemma present_nonempty:
  "finite_series vs \<Longrightarrow> \<not> list_all isna vs \<Longrightarrow> present vs \<noteq> []"
proof (induction vs)
  case Nil then show ?case by simp
next
  case (Cons v vs) then show ?case by (cases v) (simp_all add: finite_series_def)
qed

lemma nansum_finite:
  "finite_series vs \<Longrightarrow> sum_list (map abs (present vs)) \<le> float_max \<Longrightarrow>
   nansum vs = Inr (Num (sum_list (present vs)))"
  by (simp add: nansum_def finite_no_str fsum_finite)

lemma smc_mean:
  assumes "series \<noteq> []" "\<not> list_all isna series" "finite_series series"
    and "sum_list (map abs (present series)) \<le> float_max"
  shows "safe_metric_calculation series ''mean'' dflt = Num (spec_mean series)"
proof -
  let ?s = "sum_list (present series)" and ?n = "notna_count series"
  have n: "?n \<noteq> 0" using assms(2) by (simp add: notna_count_zero)
  then have n1: "1 \<le> real ?n" by simp
  have "\<bar>?s / real ?n\<bar> = \<bar>?s\<bar> / real ?n" by simp
  also have "\<dots> \<le> \<bar>?s\<bar> / 1" using n1 by (intro divide_left_mono) simp_all
  also have "\<dots> \<le> float_max" using sum_abs_ge [of "present series"] assms(4) by simp
  finally have "\<bar>?s / real ?n\<bar> \<le> float_max" .
  then have "fl (?s / real ?n) = Num (?s / real ?n)" by (intro fl_Num) linarith+
  then show ?thesis using assms n
    by (simp add: safe_metric_calculation_def series_mean_def nansum_finite spec_mean_def
        length_present)
qed

lemma is_int64_not_str: "is_int64 vs \<Longrightarrow> \<not> list_all is_str vs"
  by (cases vs) (auto simp: is_int64_def elim: is_int.elims)

lemma smc_sum_float:
  assumes "series \<noteq> []" "\<not> list_all isna series" "finite_series series" "\<not> is_int64 series"
    and "sum_list (map abs (present series)) \<le> float_max"
  shows "safe_metric_calculation series ''sum'' dflt = Num (spec_sum series)"
proof -
  have "\<not> list_all is_str series"
    using assms(1,3) by (cases series) (auto simp: finite_series_def)
  then show ?thesis using assms
    by (simp add: safe_metric_calculation_def series_sum_def nansum_finite spec_sum_def)
qed

lemma is_int64_not_na: "is_int64 vs \<Longrightarrow> vs \<noteq> [] \<and> \<not> list_all isna vs"
  by (cases vs) (auto simp: is_int64_def elim: is_int.elims)

lemma smc_sum_int64:
  "is_int64 series \<Longrightarrow>
   safe_metric_calculation series ''sum'' dflt = Int64 (wrap64 (sum_list (map int_of series)))"
  using is_int64_not_na [of series] is_int64_not_str [of series]
  by (simp add: safe_metric_calculation_def series_sum_def)

lemma wrap64_id: "- (2 ^ 63) \<le> i \<Longrightarrow> i < 2 ^ 63 \<Longrightarrow> wrap64 i = i"
  by (simp add: wrap64_def)

lemma present_int:
  "list_all is_int vs \<Longrightarrow> real_of_int (sum_list (map int_of vs)) = sum_list (present vs)"
proof (induction vs)
  case Nil then show ?case by simp
next
  case (Cons v vs) then show ?case by (cases v) simp_all
qed

lemma int_sum_in_range:
  assumes "list_all is_int vs" "sum_list (map abs (present vs)) < 2 ^ 63"
  shows "wrap64 (sum_list (map int_of vs)) = sum_list (map int_of vs)"
    and "real_of_int (sum_list (map int_of vs)) = sum_list (present vs)"
proof -
  show eq: "real_of_int (sum_list (map int_of vs)) = sum_list (present vs)"
    using assms(1) by (rule present_int)
  have "\<bar>real_of_int (sum_list (map int_of vs))\<bar> < 2 ^ 63"
    using sum_abs_ge [of "present vs"] assms(2) eq by linarith
  then have "\<bar>sum_list (map int_of vs)\<bar> < 2 ^ 63"
    by (metis of_int_abs of_int_less_iff of_int_numeral of_int_power)
  then show "wrap64 (sum_list (map int_of vs)) = sum_list (map int_of vs)"
    by (intro wrap64_id) linarith+
qed

lemma series_mean_finite_not_nan:
  assumes "\<not> list_all isna vs" "finite_series vs" "sum_list (map abs (present vs)) \<le> float_max"
  shows "safe_metric_calculation vs ''mean'' dflt \<noteq> NaN"
proof -
  have "vs \<noteq> []" using assms(1) by auto
  then show ?thesis using smc_mean [OF _ assms] by simp
qed

text \<open>
  Claim C2 (amended).  For every series and operation mean or sum,
  \<open>safe_metric_calculation\<close> returns the sentinel (the default, \<open>None\<close> unless the caller
  gives another one, and so neither the float 0 nor the integer 0) when the series is
  empty or all its entries are missing.  Otherwise, on a series of finite numbers whose
  absolute values add up to at most the largest float (and to less than \<open>2^63\<close> in an
  int64 column), it returns the mean or the sum of the non-missing entries only, the mean
  dividing by the number of non-missing entries: a float, or for the sum of an int64
  column the integer of the same value, and so never \<open>NaN\<close>.  The sum of any int64 column
  is the sum of its entries reduced to the int64 range (it wraps around).  Being a total
  function with every exception caught, \<open>safe_metric_calculation\<close> never raises.
\<close>

theorem safe_metric_calculation_reduce:
  "(series = [] \<or> list_all isna series \<longrightarrow>
      safe_metric_calculation series operation dflt = dflt \<and>
      safe_metric_calculation series operation PyNone \<noteq> Num 0 \<and>
      safe_metric_calculation series operation PyNone \<noteq> Int64 0)
   \<and> (series \<noteq> [] \<and> \<not> list_all isna series \<and> finite_series series \<and> in_range series \<longrightarrow>
      safe_metric_calculation series ''mean'' dflt = Num (spec_mean series) \<and>
      safe_metric_calculation series ''sum'' dflt =
        (if is_int64 series then Int64 (sum_list (map int_of series)) else Num (spec_sum series)) \<and>
      (is_int64 series \<longrightarrow> real_of_int (sum_list (map int_of series)) = spec_sum series))
   \<and> (is_int64 series \<longrightarrow>
      safe_metric_calculation series ''sum'' dflt = Int64 (wrap64 (sum_list (map int_of series))))"
proof (intro conjI impI)
  assume "series = [] \<or> list_all isna series"
  then show "safe_metric_calculation series operation dflt = dflt"
    and "safe_metric_calculation series operation PyNone \<noteq> Num 0"
    and "safe_metric_calculation series operation PyNone \<noteq> Int64 0"
    by (auto simp: safe_metric_calculation_def)
next
  assume a: "series \<noteq> [] \<and> \<not> list_all isna series \<and> finite_series series \<and> in_range series"
  then have r: "sum_list (map abs (present series)) \<le> float_max"
    by (simp add: in_range_def)
  from a r show "safe_metric_calculation series ''mean'' dflt = Num (spec_mean series)"
    by (simp add: smc_mean)
  show "safe_metric_calculation series ''sum'' dflt =
      (if is_int64 series then Int64 (sum_list (map int_of series)) else Num (spec_sum series))"
  proof (cases "is_int64 series")
    case True
    with a have "list_all is_int series" "sum_list (map abs (present series)) < 2 ^ 63"
      by (simp_all add: in_range_def is_int64_def)
    then have "wrap64 (sum_list (map int_of series)) = sum_list (map int_of series)"
      by (rule int_sum_in_range)
    with True show ?thesis by (simp add: smc_sum_int64)
  next
    case False
    with a r show ?thesis by (simp add: smc_sum_float)
  qed
next
  assume a: "series \<noteq> [] \<and> \<not> list_all isna series \<and> finite_series series \<and> in_range series"
    and i: "is_int64 series"
  then have "list_all is_int series" by (simp add: is_int64_def)
  then show "real_of_int (sum_list (map int_of series)) = spec_sum series"
    unfolding spec_sum_def by (rule present_int)
next
  assume "is_int64 series"
  then show "safe_metric_calculation series ''sum'' dflt =
      Int64 (wrap64 (sum_list (map int_of series)))"
    by (rule smc_sum_int64)
qed

theorem safe_metric_calculation_reduce_witness:
  "safe_metric_calculation [] ''mean'' PyNone = PyNone
   \<and> safe_metric_calculation [NaN, NaN] ''mean'' PyNone = PyNone
   \<and> safe_metric_calculation [Num 1, NaN, Num 3] ''mean'' PyNone = Num 2
   \<and> safe_metric_calculation [Num 1, NaN, Num 3] ''sum'' PyNone = Num 4
   \<and> safe_metric_calculation [Int64 20, Int64 50] ''mean'' PyNone = Num 35
   \<and> safe_metric_calculation [Int64 20, Int64 50] ''sum'' PyNone = Int64 70"
  using safe_metric_calculation_reduce [of "[]" "''mean''" PyNone]
    safe_metric_calculation_reduce [of "[NaN, NaN]" "''mean''" PyNone]
    safe_metric_calculation_reduce [of "[Num 1, NaN, Num 3]" "''mean''" PyNone]
    safe_metric_calculation_reduce [of "[Int64 20, Int64 50]" "''mean''" PyNone]
  by (simp add: finite_series_def in_range_def is_int64_def float_max_def spec_mean_def
      spec_sum_def)

text \<open>
  The claim as it was written fails on a series that holds both infinities, where the sum
  and the mean are \<open>NaN\<close>, and on an int64 column whose sum leaves the int64 range.
\<close>

theorem safe_metric_calculation_counterexample:
  "safe_metric_calculation [Infty True, Infty False] ''sum'' PyNone = NaN
   \<and> safe_metric_calculation [Infty True, Infty False] ''mean'' PyNone = NaN
   \<and> safe_metric_calculation [Int64 9223372036854775807, Int64 1] ''sum'' PyNone =
       Int64 (- 9223372036854775808)"
  by (simp add: safe_metric_calculation_def series_sum_def series_mean_def nansum_def fsum_def
      fill0_def is_int64_def notna_count_def wrap64_def)

section \<open>Properties of the overview KPIs\<close>

text \<open>
  Claim C10.  The overview page tests the two aggregates for truth: when
  \<open>safe_metric_calculation\<close> returns the number 0 for the average of the fatalities or
  for the mean survival rate, the page shows the sentinel text, the same text as when the
  aggregate is not available (\<open>None\<close>); a number other than 0 is shown formatted.
\<close>

theorem zero_kpi_shown_as_dash:
  "(safe_metric_calculation (fdf_get fdf ''Fatalities (Air)'') ''mean'' PyNone = Num 0
      \<longrightarrow> avg_fatalities_metric fdf = Inr (Literal dash))
   \<and> (safe_metric_calculation (fdf_get fdf ''Fatalities (Air)'') ''mean'' PyNone = PyNone
      \<longrightarrow> avg_fatalities_metric fdf = Inr (Literal dash))
   \<and> (safe_metric_calculation (fdf_get fdf ''Survival Rate'') ''mean'' PyNone = Num 0
      \<longrightarrow> survival_rate_metric fdf = Inr (Literal dash))
   \<and> (safe_metric_calculation (fdf_get fdf ''Survival Rate'') ''mean'' PyNone = PyNone
      \<longrightarrow> survival_rate_metric fdf = Inr (Literal dash))
   \<and> (\<forall>x. x \<noteq> 0 \<and> safe_metric_calculation (fdf_get fdf ''Fatalities (Air)'') ''mean'' PyNone = Num x
      \<longrightarrow> avg_fatalities_metric fdf = Inr (OneDecimal x))
   \<and> (\<forall>x. x \<noteq> 0 \<and> safe_metric_calculation (fdf_get fdf ''Survival Rate'') ''mean'' PyNone = Num x
      \<longrightarrow> survival_rate_metric fdf = Inr (OneDecimalPercent (x * 100)))"
  by (simp add: avg_fatalities_metric_def survival_rate_metric_def Let_def)

theorem zero_kpi_shown_as_dash_witness:
  "safe_metric_calculation (fdf_get no_survivors ''Fatalities (Air)'') ''mean'' PyNone = Num 0
   \<and> avg_fatalities_metric no_survivors = Inr (Literal dash)
   \<and> safe_metric_calculation (fdf_get no_survivors ''Survival Rate'') ''mean'' PyNone = Num 0
   \<and> survival_rate_metric no_survivors = Inr (Literal dash)
   \<and> avg_fatalities_metric [] = Inr (Literal dash)
   \<and> avg_fatalities_metric some_survivors = Inr (OneDecimal 4)"
proof -
  have m: "\<And>vs. vs \<noteq> [] \<Longrightarrow> \<not> list_all isna vs \<Longrightarrow> finite_series vs \<Longrightarrow>
      sum_list (map abs (present vs)) \<le> float_max \<Longrightarrow>
      safe_metric_calculation vs ''mean'' PyNone = Num (spec_mean vs)"
    by (rule smc_mean)
  have a: "safe_metric_calculation (fdf_get no_survivors ''Fatalities (Air)'') ''mean'' PyNone = Num 0"
    using m [of "[Num 0, Num 0]"]
    by (simp add: no_survivors_def fdf_get_def finite_series_def float_max_def spec_mean_def)
  have b: "safe_metric_calculation (fdf_get no_survivors ''Survival Rate'') ''mean'' PyNone = Num 0"
    using m [of "[Num 0, Num 0]"]
    by (simp add: no_survivors_def fdf_get_def finite_series_def float_max_def spec_mean_def)
  have c: "safe_metric_calculation (fdf_get [] ''Fatalities (Air)'') ''mean'' PyNone = PyNone"
    by (simp add: fdf_get_def safe_metric_calculation_def)
  have d: "safe_metric_calculation (fdf_get some_survivors ''Fatalities (Air)'') ''mean'' PyNone = Num 4"
    using m [of "[Num 3, Num 5]"]
    by (simp add: some_survivors_def fdf_get_def finite_series_def float_max_def spec_mean_def)
  show ?thesis
    using a b c d zero_kpi_shown_as_dash [of no_survivors] zero_kpi_shown_as_dash [of "[]"]
      zero_kpi_shown_as_dash [of some_survivors]
    by simp
qed

section \<open>Properties of loading\<close>

text \<open>
  Claim C8.  When the source cannot be read or is structurally invalid (\<open>pd.read_csv\<close>
  raises, or a later step of the body raises), \<open>load_data\<close> returns the empty table, which
  has no column and no row, and raises nothing itself.  \<open>main\<close> takes an empty table as
  a failed load: it shows an error message and stops; no filter is applied, no header
  and no page is rendered.
\<close>

theorem load_failure_halts:
  "fst (load_data parse (Inl e)) = []
   \<and> (load_data_body parse raw = Inl e \<longrightarrow> fst (load_data parse (Inr raw)) = [])
   \<and> columns [] = [] \<and> nrows [] = 0
   \<and> (df_empty (fst (load_data parse csv)) \<longrightarrow>
        main parse csv choice =
          snd (load_data parse csv) @
          [StError ''Unable to load data. Please check the file path and format.'']
        \<and> \<not> list_ex processing (main parse csv choice))"
  by (auto simp: load_data_def main_def columns_def nrows_def split: sum.splits prod.splits)

theorem load_failure_halts_witness:
  "main (\<lambda>s. None) (Inl ReadError) (\<lambda>w. ''All'') =
     [ErrorLoadingData ReadError,
      StError ''Unable to load data. Please check the file path and format.'']
   \<and> fst (load_data (\<lambda>s. None) (Inr clash)) = []"
proof -
  have a: "df_empty (fst (load_data (\<lambda>s. None) (Inl ReadError)))"
    by (simp add: load_data_def df_empty_def columns_def)
  have b: "load_data_body (\<lambda>s. None) clash = Inl TypeError"
    by (simp add: clash_def load_data_body_def rename_columns_def rename_map_def columns_def
      numeric_cols_def coerce_column_def)
  show ?thesis
    using a b load_failure_halts [of "\<lambda>s. None" ReadError clash "Inl ReadError" "\<lambda>w. ''All''"]
      load_failure_halts [of "\<lambda>s. None" TypeError clash "Inl ReadError" "\<lambda>w. ''All''"]
    by (simp add: load_data_def)
qed

lemma in_columns_iff: "c \<in> set (columns df) \<longleftrightarrow> map_of df c \<noteq> None"
  by (simp add: columns_def map_of_eq_None_iff)

lemma columns_update:
  "columns (AList.update k v df) = (if k \<in> set (columns df) then columns df else columns df @ [k])"
  by (simp add: columns_def update_keys)

lemma map_of_update: "map_of (AList.update k v df) = (map_of df)(k \<mapsto> v)"
  by (rule update_conv')

lemma coerce_column_Inr:
  assumes "coerce_column parse c df = Inr df'"
  shows "columns df' = columns df"
    and "n \<noteq> c \<Longrightarrow> map_of df' n = map_of df n"
    and "map_of df c = Some vs \<Longrightarrow> map_of df' c = Some (to_numeric parse vs)"
  using assms
  by (auto simp: coerce_column_def getcol_def columns_update map_of_update in_columns_iff
      split: if_splits option.splits)

lemma coerce_columns_Inr:
  assumes "coerce_columns parse cs df = Inr df'" "distinct cs"
  shows "columns df' = columns df
     \<and> (\<forall>n. n \<notin> set cs \<longrightarrow> map_of df' n = map_of df n)
     \<and> (\<forall>c\<in>set cs. \<forall>vs. map_of df c = Some vs \<longrightarrow>
           map_of df' c = Some (to_numeric parse vs))"
  using assms
proof (induction cs arbitrary: df)
  case Nil
  then show ?case by simp
next
  case (Cons c cs)
  from Cons.prems obtain d1 where d1: "coerce_column parse c df = Inr d1"
    and rest: "coerce_columns parse cs d1 = Inr df'"
    by (auto split: sum.splits)
  from Cons.prems have dist: "distinct cs" and notin: "c \<notin> set cs" by auto
  note ih = Cons.IH [OF rest dist]
  note st = coerce_column_Inr [OF d1]
  show ?case
  proof (intro conjI allI impI ballI)
    show "columns df' = columns df" using ih st(1) by simp
  next
    fix n assume "n \<notin> set (c # cs)"
    then show "map_of df' n = map_of df n" using ih st(2) by simp
  next
    fix k vs assume k: "k \<in> set (c # cs)" and vs: "map_of df k = Some vs"
    show "map_of df' k = Some (to_numeric parse vs)"
    proof (cases "k = c")
      case True
      then show ?thesis using ih notin st(3) vs by simp
    next
      case False
      with k have "k \<in> set cs" by simp
      moreover have "map_of d1 k = Some vs" using st(2) False vs by simp
      ultimately show ?thesis using ih by blast
    qed
  qed
qed

lemma coerce_columns_ok:
  "\<forall>c\<in>set cs. count_list (columns df) c \<le> 1 \<Longrightarrow> \<exists>df'. coerce_columns parse cs df = Inr df'"
proof (induction cs arbitrary: df)
  case Nil
  then show ?case by simp
next
  case (Cons c cs)
  have "\<exists>d1. coerce_column parse c df = Inr d1"
    using Cons.prems
    by (auto simp: coerce_column_def getcol_def in_columns_iff split: option.splits)
  then obtain d1 where d1: "coerce_column parse c df = Inr d1" ..
  then have "columns d1 = columns df" by (rule coerce_column_Inr(1))
  with Cons.prems have "\<forall>c\<in>set cs. count_list (columns d1) c \<le> 1" by simp
  from Cons.IH [OF this] d1 show ?case by simp
qed

lemma to_numeric_cell_not_str: "\<not> is_str (to_numeric_cell parse v)"
  by (cases v) (simp_all split: option.splits val.splits)

lemma as_float_not_str: "\<not> is_str v \<Longrightarrow> \<not> is_str (as_float v)"
  by (cases v) simp_all

lemma numeric_to_numeric: "numeric (to_numeric parse vs)"
  by (simp add: numeric_def to_numeric_def unify_dtype_def list_all_iff to_numeric_cell_not_str
      as_float_not_str)

lemma length_to_numeric: "length (to_numeric parse vs) = length vs"
  by (simp add: to_numeric_def unify_dtype_def)

lemma to_numeric_unreadable:
  assumes "i < length vs" "vs ! i = Str s" "parse s = None"
  shows "to_numeric parse vs ! i = NaN"
proof -
  have c: "map (to_numeric_cell parse) vs ! i = NaN" using assms by simp
  have "map (to_numeric_cell parse) vs ! i \<in> set (map (to_numeric_cell parse) vs)"
    using assms(1) by (intro nth_mem) simp
  with c have "NaN \<in> set (map (to_numeric_cell parse) vs)" by simp
  then have "\<not> list_all is_int (map (to_numeric_cell parse) vs)"
    unfolding list_all_iff by (metis is_int.simps(3))
  then show ?thesis using assms(1) c by (simp add: to_numeric_def unify_dtype_def)
qed

lemma clip_clamp: "1 - clip q 0 1 = clamp (1 - q) 0 1"
  by (simp add: clip_def clamp_def min_def max_def)

lemma one_minus_clip_fl: "one_minus (clip_cell (fl q) 0 1) = Num (clamp (1 - q) 0 1)"
  using float_max_ge_one by (simp add: fl_def clip_clamp) (simp add: clamp_def)

lemma survival_rate_cell_numeric:
  "\<not> is_str a \<Longrightarrow> \<not> is_str f \<Longrightarrow> survival_rate_cell a f = Inr (spec_survival_rate a f)"
  by (cases a; cases f)
    (simp_all add: spec_survival_rate_def clamped_rate_def one_minus_clip_fl clip_def)

lemma survival_rate_series_numeric:
  "numeric ab \<Longrightarrow> numeric fa \<Longrightarrow>
   survival_rate_series ab fa = Inr (map2 spec_survival_rate ab fa)"
proof (induction ab fa rule: list_induct2')
  case (4 a ab f fa)
  then show ?case by (simp add: numeric_def survival_rate_cell_numeric)
qed simp_all

lemma spec_survival_rate_range:
  "spec_survival_rate a f = NaN \<or> (\<exists>x. spec_survival_rate a f = Num x \<and> 0 \<le> x \<and> x \<le> 1)"
  by (simp add: spec_survival_rate_def clamped_rate_def clamp_def)

lemma spec_survival_rate_defined:
  "\<not> isna (spec_survival_rate a f) \<longleftrightarrow>
     positive a \<and> \<not> isna f \<and> \<not> (is_inf a \<and> is_inf f)"
  by (simp add: spec_survival_rate_def)

lemma spec_survival_rate_finite:
  "positive a \<Longrightarrow> \<not> isna f \<Longrightarrow> \<not> is_inf a \<Longrightarrow> \<not> is_inf f \<Longrightarrow>
   spec_survival_rate a f = Num (clamp (1 - number_in f / number_in a) 0 1)"
  by (cases a; cases f) (simp_all add: spec_survival_rate_def clamped_rate_def)

lemma add_month_name_Inr:
  "\<exists>df'. add_month_name df = Inr df'
     \<and> (\<forall>n. n \<noteq> ''Month Name'' \<longrightarrow> map_of df' n = map_of df n)
     \<and> set (columns df') \<subseteq> insert ''Month Name'' (set (columns df))"
  by (auto simp: add_month_name_def getcol_def columns_update map_of_update in_columns_iff
      split: option.splits)

lemma all_length_iff: "all_length n df \<longleftrightarrow> (\<forall>(c, vs)\<in>set df. length vs = n)"
  by (simp add: all_length_def list_all_iff)

lemma set_alist_update: "set (AList.update k v df) \<subseteq> insert (k, v) (set df)"
  by (induction df) auto

lemma all_length_update:
  "all_length n df \<Longrightarrow> length vs = n \<Longrightarrow> all_length n (AList.update k vs df)"
  unfolding all_length_iff using set_alist_update [of k vs df] by auto

lemma all_length_map_of: "all_length n df \<Longrightarrow> map_of df c = Some vs \<Longrightarrow> length vs = n"
  unfolding all_length_iff by (auto dest: map_of_SomeD)

lemma all_length_rename: "all_length n (rename_columns m df) = all_length n df"
  by (induction df) (auto simp: all_length_def rename_columns_def)

lemma all_length_coerce_column:
  "all_length n df \<Longrightarrow> coerce_column parse c df = Inr df' \<Longrightarrow> all_length n df'"
  by (auto simp: coerce_column_def getcol_def all_length_update all_length_map_of
      length_to_numeric split: if_splits option.splits)

lemma all_length_coerce_columns:
  "all_length n df \<Longrightarrow> coerce_columns parse cs df = Inr df' \<Longrightarrow> all_length n df'"
proof (induction cs arbitrary: df)
  case Nil
  then show ?case by simp
next
  case (Cons c cs)
  then show ?case by (auto split: sum.splits dest: all_length_coerce_column)
qed

lemma all_length_month:
  "all_length n df \<Longrightarrow> add_month_name df = Inr df' \<Longrightarrow> all_length n df'"
  by (auto simp: add_month_name_def getcol_def all_length_update all_length_map_of
      split: if_splits option.splits)

lemma length_survival_rate_series:
  "survival_rate_series ab fa = Inr sr \<Longrightarrow> length sr = min (length ab) (length fa)"
proof (induction ab fa arbitrary: sr rule: list_induct2')
  case (4 a ab f fa)
  then show ?case by (auto split: sum.splits)
qed simp_all

lemma all_length_survival:
  "all_length n df \<Longrightarrow> add_survival_rate df = Inr df' \<Longrightarrow> all_length n df'"
  by (auto simp: add_survival_rate_def getcol_def all_length_update all_length_map_of
      length_survival_rate_series split: if_splits option.splits sum.splits)

lemma load_data_body_all_length:
  assumes "all_length n raw" "load_data_body parse raw = Inr df"
  shows "all_length n df"
proof -
  let ?df0 = "rename_columns (filter (\<lambda>(k, v). k \<in> set (columns raw)) rename_map) raw"
  from assms(2) obtain df1 df2 where
    1: "coerce_columns parse numeric_cols ?df0 = Inr df1" and
    2: "add_month_name df1 = Inr df2" and 3: "add_survival_rate df2 = Inr df"
    by (auto simp: load_data_body_def Let_def split: sum.splits)
  have "all_length n ?df0" using assms(1) by (simp add: all_length_rename)
  then have "all_length n df1" using 1 by (rule all_length_coerce_columns)
  then have "all_length n df2" using 2 by (rule all_length_month)
  then show ?thesis using 3 by (rule all_length_survival)
qed

lemma load_data_body_survival:
  assumes body: "load_data_body parse raw = Inr df"
    and ab: "''Aboard'' \<in> set (columns df)"
    and fa: "''Fatalities (Air)'' \<in> set (columns df)"
  shows "\<exists>ab fa. map_of df ''Aboard'' = Some ab \<and> map_of df ''Fatalities (Air)'' = Some fa
           \<and> numeric ab \<and> numeric fa
           \<and> map_of df ''Survival Rate'' = Some (map2 spec_survival_rate ab fa)"
proof -
  define df0 where
    "df0 = rename_columns (filter (\<lambda>(k, v). k \<in> set (columns raw)) rename_map) raw"
  from body obtain df1 df2 where
    1: "coerce_columns parse numeric_cols df0 = Inr df1" and
    2: "add_month_name df1 = Inr df2" and 3: "add_survival_rate df2 = Inr df"
    by (auto simp: load_data_body_def Let_def df0_def split: sum.splits)
  have dist: "distinct numeric_cols" by (simp add: numeric_cols_def)
  from coerce_columns_Inr [OF 1 dist]
  have ceq: "columns df1 = columns df0"
    and cnum: "\<And>c vs. c \<in> set numeric_cols \<Longrightarrow> map_of df0 c = Some vs \<Longrightarrow>
                 map_of df1 c = Some (to_numeric parse vs)"
    by blast+
  from add_month_name_Inr [of df1] 2
  have m: "\<And>n. n \<noteq> ''Month Name'' \<Longrightarrow> map_of df2 n = map_of df1 n" by auto
  have num: "\<exists>vs. map_of df2 k = Some vs \<and> numeric vs"
    if k: "k \<in> set numeric_cols" "k \<in> set (columns df2)" "k \<noteq> ''Month Name''" for k
  proof -
    from k(2) have "map_of df2 k \<noteq> None" by (simp add: in_columns_iff)
    with m [OF k(3)] have "map_of df1 k \<noteq> None" by simp
    then have "k \<in> set (columns df1)" by (simp add: in_columns_iff)
    then have "k \<in> set (columns df0)" by (simp only: ceq)
    then have "map_of df0 k \<noteq> None" by (simp add: in_columns_iff)
    then obtain vs0 where "map_of df0 k = Some vs0" by blast
    from cnum [OF k(1) this] have "map_of df1 k = Some (to_numeric parse vs0)" .
    with m [OF k(3)] show ?thesis by (simp add: numeric_to_numeric)
  qed
  have cols: "set (columns df) \<subseteq> insert ''Survival Rate'' (set (columns df2))"
    using 3
    by (auto simp: add_survival_rate_def columns_update split: if_splits sum.splits)
  from ab cols have ab2: "''Aboard'' \<in> set (columns df2)" by auto
  from fa cols have fa2: "''Fatalities (Air)'' \<in> set (columns df2)" by auto
  from num [OF _ ab2] obtain a where a: "map_of df2 ''Aboard'' = Some a" "numeric a"
    by (auto simp: numeric_cols_def)
  from num [OF _ fa2] obtain f where f: "map_of df2 ''Fatalities (Air)'' = Some f" "numeric f"
    by (auto simp: numeric_cols_def)
  from 3 ab2 fa2 a f
  have "df = AList.update ''Survival Rate'' (map2 spec_survival_rate a f) df2"
    by (simp add: add_survival_rate_def getcol_def survival_rate_series_numeric)
  with a f show ?thesis by (simp add: map_of_update)
qed

text \<open>
  Claim C1 (amended).  In the table that \<open>load_data\<close> returns, when the columns \<open>Aboard\<close>
  and \<open>Fatalities (Air)\<close> both exist, the column \<open>Survival Rate\<close> exists and, for every
  record, its value is defined exactly when \<open>Aboard > 0\<close>, the fatalities are not missing
  and the two are not both infinite; it is then \<open>clamp(1 - Fatalities/Aboard, 0, 1)\<close>, a
  number between 0 and 1, and it is missing otherwise.  For finite numbers the value is the
  clamped real quotient.
\<close>

theorem survival_rate_invariant:
  assumes "df = fst (load_data parse (Inr raw))" and "all_length n raw"
    and "''Aboard'' \<in> set (columns df)" and "''Fatalities (Air)'' \<in> set (columns df)"
  shows "''Survival Rate'' \<in> set (columns df) \<and>
    (\<forall>i<n.
       cell df ''Survival Rate'' i =
         spec_survival_rate (cell df ''Aboard'' i) (cell df ''Fatalities (Air)'' i)
       \<and> (\<not> isna (cell df ''Survival Rate'' i) \<longleftrightarrow>
            positive (cell df ''Aboard'' i) \<and> \<not> isna (cell df ''Fatalities (Air)'' i)
            \<and> \<not> (is_inf (cell df ''Aboard'' i) \<and> is_inf (cell df ''Fatalities (Air)'' i)))
       \<and> (cell df ''Survival Rate'' i = NaN \<or>
            (\<exists>x. cell df ''Survival Rate'' i = Num x \<and> 0 \<le> x \<and> x \<le> 1))
       \<and> (positive (cell df ''Aboard'' i) \<and> \<not> isna (cell df ''Fatalities (Air)'' i)
            \<and> \<not> is_inf (cell df ''Aboard'' i) \<and> \<not> is_inf (cell df ''Fatalities (Air)'' i) \<longrightarrow>
            cell df ''Survival Rate'' i =
              Num (clamp (1 - number_in (cell df ''Fatalities (Air)'' i) /
                              number_in (cell df ''Aboard'' i)) 0 1)))"
proof -
  have body: "load_data_body parse raw = Inr df"
    using assms(1,3) by (auto simp: load_data_def columns_def split: sum.splits)
  from load_data_body_survival [OF body assms(3,4)] obtain ab fa where
    ab: "map_of df ''Aboard'' = Some ab" and fa: "map_of df ''Fatalities (Air)'' = Some fa"
    and sr: "map_of df ''Survival Rate'' = Some (map2 spec_survival_rate ab fa)"
    by blast
  have len: "all_length n df" using assms(2) body by (rule load_data_body_all_length)
  have la: "length ab = n" and lf: "length fa = n"
    using len ab fa by (auto dest: all_length_map_of)
  have eq: "cell df ''Survival Rate'' i =
      spec_survival_rate (cell df ''Aboard'' i) (cell df ''Fatalities (Air)'' i)"
    if "i < n" for i
    using that la lf by (simp add: cell_def ab fa sr)
  show ?thesis
  proof (intro conjI allI impI)
    show "''Survival Rate'' \<in> set (columns df)" using sr by (simp add: in_columns_iff)
  next
    fix i assume "i < n"
    then show "cell df ''Survival Rate'' i =
      spec_survival_rate (cell df ''Aboard'' i) (cell df ''Fatalities (Air)'' i)" by (rule eq)
  next
    fix i assume "i < n"
    then show "(\<not> isna (cell df ''Survival Rate'' i)) =
      (positive (cell df ''Aboard'' i) \<and> \<not> isna (cell df ''Fatalities (Air)'' i)
       \<and> \<not> (is_inf (cell df ''Aboard'' i) \<and> is_inf (cell df ''Fatalities (Air)'' i)))"
      by (simp only: eq spec_survival_rate_defined)
  next
    fix i assume "i < n"
    then show "cell df ''Survival Rate'' i = NaN \<or>
      (\<exists>x. cell df ''Survival Rate'' i = Num x \<and> 0 \<le> x \<and> x \<le> 1)"
      using spec_survival_rate_range [of "cell df ''Aboard'' i" "cell df ''Fatalities (Air)'' i"]
      by (simp add: eq)
  next
    fix i assume i: "i < n"
      and h: "positive (cell df ''Aboard'' i) \<and> \<not> isna (cell df ''Fatalities (Air)'' i)
            \<and> \<not> is_inf (cell df ''Aboard'' i) \<and> \<not> is_inf (cell df ''Fatalities (Air)'' i)"
    from h show "cell df ''Survival Rate'' i =
              Num (clamp (1 - number_in (cell df ''Fatalities (Air)'' i) /
                              number_in (cell df ''Aboard'' i)) 0 1)"
      by (simp add: eq [OF i] spec_survival_rate_finite)
  qed
qed

lemma example_loaded:
  "fst (load_data example_parse (Inr example_raw)) =
     [(''Year'', [Int64 1985, Int64 1985, Int64 1990]),
      (''Aboard'', [Num 100, Num 50, NaN]),
      (''Fatalities (Air)'', [Int64 20, Int64 50, Int64 0]),
      (''Country'', [Str ''USA'', Str ''USA'', Str ''UK'']),
      (''Survival Rate'', [Num (4 / 5), Num 0, NaN])]"
  by (simp add: load_data_def load_data_body_def example_raw_def example_parse_def
      rename_columns_def rename_map_def columns_def numeric_cols_def coerce_column_def
      getcol_def add_month_name_def add_survival_rate_def clip_def to_numeric_def
      unify_dtype_def fl_def float_max_def)

theorem survival_rate_invariant_witness:
  "cell (fst (load_data example_parse (Inr example_raw))) ''Survival Rate'' 0 = Num (4 / 5)
   \<and> cell (fst (load_data example_parse (Inr example_raw))) ''Survival Rate'' 1 = Num 0
   \<and> cell (fst (load_data example_parse (Inr example_raw))) ''Survival Rate'' 2 = NaN"
proof -
  let ?df = "fst (load_data example_parse (Inr example_raw))"
  have ev: "?df =
     [(''Year'', [Int64 1985, Int64 1985, Int64 1990]),
      (''Aboard'', [Num 100, Num 50, NaN]),
      (''Fatalities (Air)'', [Int64 20, Int64 50, Int64 0]),
      (''Country'', [Str ''USA'', Str ''USA'', Str ''UK'']),
      (''Survival Rate'', [Num (4 / 5), Num 0, NaN])]"
    by (rule example_loaded)
  have a: "all_length 3 example_raw" by (simp add: all_length_def example_raw_def)
  have b: "''Aboard'' \<in> set (columns ?df)" by (simp add: ev columns_def)
  have c: "''Fatalities (Air)'' \<in> set (columns ?df)" by (simp add: ev columns_def)
  from survival_rate_invariant [OF refl a b c]
  have "\<forall>i<3. cell ?df ''Survival Rate'' i =
         spec_survival_rate (cell ?df ''Aboard'' i) (cell ?df ''Fatalities (Air)'' i)"
    by blast
  then have "cell ?df ''Survival Rate'' 0 =
         spec_survival_rate (cell ?df ''Aboard'' 0) (cell ?df ''Fatalities (Air)'' 0)
      \<and> cell ?df ''Survival Rate'' 1 =
         spec_survival_rate (cell ?df ''Aboard'' 1) (cell ?df ''Fatalities (Air)'' 1)
      \<and> cell ?df ''Survival Rate'' 2 =
         spec_survival_rate (cell ?df ''Aboard'' 2) (cell ?df ''Fatalities (Air)'' 2)"
    by simp
  then show ?thesis
    by (simp add: ev cell_def spec_survival_rate_def clamped_rate_def clamp_def)
qed

text \<open>
  The claim as it was written fails on a record whose number aboard and fatalities are
  both plus infinity: the number aboard is positive and the fatalities are known, but the
  quotient of the two is \<open>NaN\<close>, and the survival rate is missing.
\<close>

theorem survival_rate_counterexample:
  "cell (fst (load_data (\<lambda>s. None) (Inr infinite_raw))) ''Aboard'' 0 = Infty True
   \<and> cell (fst (load_data (\<lambda>s. None) (Inr infinite_raw))) ''Fatalities (Air)'' 0 = Infty True
   \<and> positive (Infty True) \<and> isna (Infty True) = False
   \<and> cell (fst (load_data (\<lambda>s. None) (Inr infinite_raw))) ''Survival Rate'' 0 = NaN"
  by (simp add: load_data_def load_data_body_def infinite_raw_def
      rename_columns_def rename_map_def columns_def numeric_cols_def coerce_column_def
      getcol_def add_month_name_def add_survival_rate_def to_numeric_def
      unify_dtype_def cell_def)

lemma map_of_unique:
  "(c, vs) \<in> set al \<Longrightarrow> count_list (map fst al) c \<le> 1 \<Longrightarrow> map_of al c = Some vs"
proof (induction al)
  case Nil
  then show ?case by simp
next
  case (Cons p al)
  show ?case
  proof (cases "fst p = c")
    case True
    with Cons.prems(2) have "count_list (map fst al) c = 0" by simp
    then have "c \<notin> fst ` set al" by (simp add: count_list_0_iff)
    with Cons.prems(1) True show ?thesis by (cases p) force
  next
    case False
    with Cons show ?thesis by (cases p) auto
  qed
qed

lemma map_of_filter_keys:
  "map_of (filter (\<lambda>(k, v). k \<in> S) m) n = (if n \<in> S then map_of m n else None)"
  by (induction m) auto

lemma rename_canonical:
  "rename_columns (filter (\<lambda>(k, v). k \<in> set (columns raw)) rename_map) raw =
     map (\<lambda>(n, vs). (canonical n, vs)) raw"
proof -
  have "fst p \<in> set (columns raw)" if "p \<in> set raw" for p
    using that by (simp add: columns_def)
  then show ?thesis
    unfolding rename_columns_def
    by (intro map_cong refl) (auto simp: map_of_filter_keys canonical_def)
qed

lemma canonical_alias: "\<forall>(k, v)\<in>set rename_map. canonical k = v \<and> canonical v = v"
  by (simp add: rename_map_def canonical_def)

lemma canonical_other: "n \<notin> fst ` set rename_map \<Longrightarrow> canonical n = n"
  by (simp add: canonical_def map_of_eq_None_iff [THEN iffD2])

lemma add_month_name_columns:
  "add_month_name df = Inr df' \<Longrightarrow>
   columns df' = columns df \<or> columns df' = columns df @ [''Month Name'']"
  by (auto simp: add_month_name_def getcol_def columns_update split: if_splits option.splits)

lemma add_survival_rate_ok:
  assumes "\<And>vs. map_of df2 ''Aboard'' = Some vs \<Longrightarrow> numeric vs"
    and "\<And>vs. map_of df2 ''Fatalities (Air)'' = Some vs \<Longrightarrow> numeric vs"
  shows "\<exists>df. add_survival_rate df2 = Inr df
           \<and> (\<forall>n. n \<noteq> ''Survival Rate'' \<longrightarrow> map_of df n = map_of df2 n)
           \<and> (columns df = columns df2 \<or> columns df = columns df2 @ [''Survival Rate''])"
proof (cases "''Aboard'' \<in> set (columns df2) \<and> ''Fatalities (Air)'' \<in> set (columns df2)")
  case True
  then obtain a f where a: "map_of df2 ''Aboard'' = Some a"
    and f: "map_of df2 ''Fatalities (Air)'' = Some f"
    by (auto simp: in_columns_iff)
  with assms have "survival_rate_series a f = Inr (map2 spec_survival_rate a f)"
    by (simp add: survival_rate_series_numeric)
  with True a f
  have "add_survival_rate df2 = Inr (AList.update ''Survival Rate'' (map2 spec_survival_rate a f) df2)"
    by (simp add: add_survival_rate_def getcol_def)
  then show ?thesis by (auto simp: map_of_update columns_update)
next
  case False
  then have "add_survival_rate df2 = Inr df2" by (auto simp: add_survival_rate_def)
  then show ?thesis by simp
qed

lemma load_data_body_ok:
  assumes nc: "\<forall>c\<in>set numeric_cols. count_list (map canonical (columns raw)) c \<le> 1"
  shows "\<exists>df. load_data_body parse raw = Inr df
           \<and> take (length raw) (columns df) = map canonical (columns raw)
           \<and> (\<forall>(n, vs)\<in>set raw. canonical n \<in> set numeric_cols \<longrightarrow>
                 map_of df (canonical n) = Some (to_numeric parse vs))"
proof -
  define df0 where "df0 = map (\<lambda>(n, vs). (canonical n, vs)) raw"
  have cols0: "columns df0 = map canonical (columns raw)"
    by (simp add: df0_def columns_def case_prod_unfold)
  from nc cols0 have "\<forall>c\<in>set numeric_cols. count_list (columns df0) c \<le> 1" by simp
  from coerce_columns_ok [OF this] obtain df1 where
    1: "coerce_columns parse numeric_cols df0 = Inr df1" by blast
  have dist: "distinct numeric_cols" by (simp add: numeric_cols_def)
  from coerce_columns_Inr [OF 1 dist]
  have ceq: "columns df1 = columns df0"
    and cnum: "\<And>c vs. c \<in> set numeric_cols \<Longrightarrow> map_of df0 c = Some vs \<Longrightarrow>
                 map_of df1 c = Some (to_numeric parse vs)"
    by blast+
  from add_month_name_Inr [of df1] obtain df2 where
    2: "add_month_name df1 = Inr df2"
    and m: "\<And>n. n \<noteq> ''Month Name'' \<Longrightarrow> map_of df2 n = map_of df1 n"
    by auto
  have num: "numeric vs"
    if k: "k \<in> set numeric_cols" "map_of df2 k = Some vs" "k \<noteq> ''Month Name''" for k vs
  proof -
    from k(2) m [OF k(3)] have v1: "map_of df1 k = Some vs" by simp
    then have "k \<in> set (columns df1)" by (simp add: in_columns_iff)
    then have "k \<in> set (columns df0)" by (simp only: ceq)
    then have "map_of df0 k \<noteq> None" by (simp add: in_columns_iff)
    then obtain vs0 where "map_of df0 k = Some vs0" by blast
    from cnum [OF k(1) this] v1 show ?thesis by (simp add: numeric_to_numeric)
  qed
  have "\<exists>df. add_survival_rate df2 = Inr df
           \<and> (\<forall>n. n \<noteq> ''Survival Rate'' \<longrightarrow> map_of df n = map_of df2 n)
           \<and> (columns df = columns df2 \<or> columns df = columns df2 @ [''Survival Rate''])"
    by (rule add_survival_rate_ok) (auto intro: num simp: numeric_cols_def)
  then obtain df where 3: "add_survival_rate df2 = Inr df"
    and s: "\<And>n. n \<noteq> ''Survival Rate'' \<Longrightarrow> map_of df n = map_of df2 n"
    and cs: "columns df = columns df2 \<or> columns df = columns df2 @ [''Survival Rate'']"
    by blast
  have body: "load_data_body parse raw = Inr df"
    using 1 2 3 by (simp add: load_data_body_def rename_canonical df0_def)
  have len0: "length (columns df0) = length raw" by (simp add: df0_def columns_def)
  from add_month_name_columns [OF 2] cs ceq
  have "take (length (columns df0)) (columns df) = columns df0" by auto
  moreover have "length (columns raw) = length raw" by (simp add: columns_def)
  ultimately have tk: "take (length raw) (columns df) = map canonical (columns raw)"
    by (simp add: cols0)
  have cells: "map_of df (canonical n) = Some (to_numeric parse vs)"
    if "(n, vs) \<in> set raw" "canonical n \<in> set numeric_cols" for n vs
  proof -
    from that(1) have "(canonical n, vs) \<in> set df0" by (force simp: df0_def)
    moreover from nc cols0 that(2) have "count_list (map fst df0) (canonical n) \<le> 1"
      by (simp add: columns_def)
    ultimately have "map_of df0 (canonical n) = Some vs" by (rule map_of_unique)
    from cnum [OF that(2) this]
    have "map_of df1 (canonical n) = Some (to_numeric parse vs)" .
    moreover from that(2) have "canonical n \<noteq> ''Month Name''" "canonical n \<noteq> ''Survival Rate''"
      by (auto simp: numeric_cols_def)
    ultimately show ?thesis using m s by simp
  qed
  from body tk cells show ?thesis by blast
qed

text \<open>
  Claim C9 (amended).  The canonical name of a header is found by exact lookup in the
  alias table: both spellings of an alias pair have the same canonical name, and a header
  outside the table keeps its name.  When no two headers of the source have the same
  numeric canonical name (\<open>Year\<close>, \<open>Month\<close>, \<open>Aboard\<close>, \<open>Fatalities (Air)\<close>, \<open>Ground\<close>),
  \<open>load_data\<close> reports no error, the columns of its table start with the canonical names
  of the headers in their order, and every column with a numeric canonical name holds
  the cells of the source coerced to numbers: as many cells, none of them a text, a text
  that cannot be read as a number having become missing.
\<close>

theorem normalisation_without_clash:
  assumes "\<forall>c\<in>set numeric_cols. count_list (map canonical (columns raw)) c \<le> 1"
  shows "(\<forall>(k, v)\<in>set rename_map. canonical k = v \<and> canonical v = v)
     \<and> (\<forall>n. n \<notin> fst ` set rename_map \<longrightarrow> canonical n = n)
     \<and> take (length raw) (columns (fst (load_data parse (Inr raw)))) = map canonical (columns raw)
     \<and> (\<forall>(n, vs)\<in>set raw. canonical n \<in> set numeric_cols \<longrightarrow>
          map_of (fst (load_data parse (Inr raw))) (canonical n) = Some (to_numeric parse vs))
     \<and> (\<forall>vs. length (to_numeric parse vs) = length vs
            \<and> list_all (\<lambda>v. \<not> is_str v) (to_numeric parse vs)
            \<and> (\<forall>i<length vs. \<forall>s. vs ! i = Str s \<and> parse s = None \<longrightarrow>
                  to_numeric parse vs ! i = NaN))
     \<and> snd (load_data parse (Inr raw)) = []"
proof -
  from load_data_body_ok [OF assms, of parse] obtain df where
    body: "load_data_body parse raw = Inr df"
    and tk: "take (length raw) (columns df) = map canonical (columns raw)"
    and cells: "\<forall>(n, vs)\<in>set raw. canonical n \<in> set numeric_cols \<longrightarrow>
                 map_of df (canonical n) = Some (to_numeric parse vs)"
    by blast
  have ld: "load_data parse (Inr raw) = (df, [])" using body by (simp add: load_data_def)
  show ?thesis
  proof (intro conjI)
    show "\<forall>(k, v)\<in>set rename_map. canonical k = v \<and> canonical v = v"
      by (rule canonical_alias)
    show "\<forall>n. n \<notin> fst ` set rename_map \<longrightarrow> canonical n = n"
      by (simp add: canonical_other)
    show "take (length raw) (columns (fst (load_data parse (Inr raw)))) = map canonical (columns raw)"
      using tk by (simp add: ld)
    show "\<forall>(n, vs)\<in>set raw. canonical n \<in> set numeric_cols \<longrightarrow>
          map_of (fst (load_data parse (Inr raw))) (canonical n) = Some (to_numeric parse vs)"
      using cells by (simp add: ld)
    show "\<forall>vs. length (to_numeric parse vs) = length vs
            \<and> list_all (\<lambda>v. \<not> is_str v) (to_numeric parse vs)
            \<and> (\<forall>i<length vs. \<forall>s. vs ! i = Str s \<and> parse s = None \<longrightarrow>
                  to_numeric parse vs ! i = NaN)"
      using numeric_to_numeric [of parse]
      by (auto simp: length_to_numeric numeric_def to_numeric_unreadable)
    show "snd (load_data parse (Inr raw)) = []" by (simp add: ld)
  qed
qed

theorem normalisation_without_clash_witness:
  "take (length example_raw) (columns (fst (load_data example_parse (Inr example_raw)))) =
     [''Year'', ''Aboard'', ''Fatalities (Air)'', ''Country'']
   \<and> map_of (fst (load_data example_parse (Inr example_raw))) ''Aboard'' =
       Some [Num 100, Num 50, NaN]"
proof -
  have h: "\<forall>c\<in>set numeric_cols. count_list (map canonical (columns example_raw)) c \<le> 1"
    by (simp add: numeric_cols_def example_raw_def columns_def canonical_def rename_map_def)
  note t = normalisation_without_clash [OF h, of example_parse]
  from t have a: "take (length example_raw)
      (columns (fst (load_data example_parse (Inr example_raw)))) =
      map canonical (columns example_raw)"
    by blast
  have c: "map canonical (columns example_raw) =
      [''Year'', ''Aboard'', ''Fatalities (Air)'', ''Country'']"
    by (simp add: example_raw_def columns_def canonical_def rename_map_def)
  from t have b: "\<forall>(n, vs)\<in>set example_raw. canonical n \<in> set numeric_cols \<longrightarrow>
      map_of (fst (load_data example_parse (Inr example_raw))) (canonical n) =
        Some (to_numeric example_parse vs)"
    by blast
  have m: "(''aboard'', [Str ''100'', Str ''50'', Str ''many'']) \<in> set example_raw"
    by (simp add: example_raw_def)
  have k: "canonical ''aboard'' = ''Aboard''" by (simp add: canonical_def rename_map_def)
  from b m have "canonical ''aboard'' \<in> set numeric_cols \<longrightarrow>
      map_of (fst (load_data example_parse (Inr example_raw))) (canonical ''aboard'') =
        Some (to_numeric example_parse [Str ''100'', Str ''50'', Str ''many''])"
    by blast
  then have "map_of (fst (load_data example_parse (Inr example_raw))) ''Aboard'' =
       Some [Num 100, Num 50, NaN]"
    by (simp add: k numeric_cols_def example_parse_def to_numeric_def unify_dtype_def)
  with a c show ?thesis by simp
qed

text \<open>
  The claim as it was stated fails on a source that has both \<open>year\<close> and \<open>Year\<close>: both
  headers have the canonical name \<open>Year\<close>, the coercion of \<open>Year\<close> raises, and the table
  returned has no column at all.
\<close>

theorem normalisation_counterexample:
  "map canonical (columns clash) = [''Year'', ''Year'']
   \<and> load_data_body (\<lambda>s. None) clash = Inl TypeError
   \<and> columns (fst (load_data (\<lambda>s. None) (Inr clash))) = []"
  by (simp add: clash_def load_data_def load_data_body_def rename_columns_def rename_map_def
      columns_def numeric_cols_def coerce_column_def canonical_def)

section \<open>Properties of filtering\<close>

lemma foldl_filter_step_wild:
  "\<forall>p\<in>set filters. snd p = Str ''All'' \<Longrightarrow> foldl (filter_step df) fdf filters = fdf"
  by (induction filters arbitrary: fdf) (auto simp: filter_step_def)

text \<open>
  Claim C6.  With a predicate set in which every value is \<open>"All"\<close>, \<open>apply_filters\<close> returns
  a table identical to its input: the same columns with the same rows in the same order.
\<close>

theorem apply_filters_all_wildcards:
  "\<forall>p\<in>set filters. snd p = Str ''All'' \<Longrightarrow> apply_filters df filters = df"
  by (simp add: apply_filters_def foldl_filter_step_wild)

theorem apply_filters_all_wildcards_witness:
  "apply_filters example_table [(''Year'', Str ''All''), (''Country'', Str ''All'')] = example_table"
proof -
  have h: "\<forall>p\<in>set [(''Year'', Str ''All''), (''Country'', Str ''All'')]. snd p = Str ''All''"
    by simp
  show ?thesis using apply_filters_all_wildcards [OF h, of example_table] by simp
qed

lemma select_select:
  "length m = length c \<Longrightarrow> length c = length xs \<Longrightarrow>
   select (map P (select m c)) (select m xs) = select (map2 (\<lambda>b y. b \<and> P y) m c) xs"
  by (induction m c xs rule: list_induct3) auto

lemma select_all_True: "list_all id m \<Longrightarrow> length xs \<le> length m \<Longrightarrow> select m xs = xs"
  by (induction m xs rule: select.induct) auto

lemma length_select: "length m = length xs \<Longrightarrow> length (select m xs) = length (filter id m)"
  by (induction m xs rule: list_induct2) auto

lemma set_select:
  "x \<in> set (select m c) \<Longrightarrow> \<exists>j. j < length c \<and> j < length m \<and> m ! j \<and> x = c ! j"
proof (induction m c rule: select.induct)
  case (1 b bs y ys)
  show ?case
  proof (cases "b \<and> x = y")
    case True
    then have "0 < length (y # ys) \<and> 0 < length (b # bs) \<and> (b # bs) ! 0 \<and> x = (y # ys) ! 0"
      by simp
    then show ?thesis by blast
  next
    case False
    with 1 obtain j where "j < length ys \<and> j < length bs \<and> bs ! j \<and> x = ys ! j"
      by (auto split: if_splits)
    then have "Suc j < length (y # ys) \<and> Suc j < length (b # bs) \<and> (b # bs) ! Suc j
        \<and> x = (y # ys) ! Suc j"
      by simp
    then show ?thesis by blast
  qed
qed simp_all




lemma columns_take_rows: "columns (take_rows m df) = columns df"
  by (induction df) (auto simp: columns_def take_rows_def)

lemma map_of_take_rows: "map_of (take_rows m df) n = map_option (select m) (map_of df n)"
  by (induction df) (auto simp: take_rows_def)

lemma take_rows_all_True:
  "all_length n df \<Longrightarrow> list_all id m \<Longrightarrow> n \<le> length m \<Longrightarrow> take_rows m df = df"
  unfolding take_rows_def all_length_iff
  by (rule map_idI) (auto simp: select_all_True)

lemma take_rows_take_rows:
  assumes "all_length n df" "length m = n" "map_of df c = Some col"
  shows "take_rows (map P (select m col)) (take_rows m df) =
         take_rows (map2 (\<lambda>b y. b \<and> P y) m col) df"
proof -
  have lc: "length col = n" using assms(1,3) by (rule all_length_map_of)
  have "select (map P (select m col)) (select m vs) = select (map2 (\<lambda>b y. b \<and> P y) m col) vs"
    if "(k, vs) \<in> set df" for k vs
  proof -
    from that assms(1) have "length vs = n" by (auto simp: all_length_iff)
    with lc assms(2) show ?thesis by (simp add: select_select)
  qed
  then show ?thesis by (auto simp: take_rows_def)
qed

lemma distinct_count: "distinct xs \<Longrightarrow> \<not> 1 < count_list xs c"
proof (induction xs)
  case Nil
  then show ?case by simp
next
  case (Cons x xs)
  then show ?case by (auto simp: count_list_0_iff)
qed

lemma filter_rows_unique:
  "\<not> 1 < count_list (columns fdf) c \<Longrightarrow> map_of fdf c = Some col \<Longrightarrow>
   filter_rows fdf c v = Inr (take_rows (series_eq col v) fdf)"
  by (simp add: filter_rows_def getcol_def)




lemma filter_step_inactive: "\<not> active df p \<Longrightarrow> filter_step df fdf p = fdf"
  by (cases p) (auto simp: filter_step_def active_def)

lemma row_matches_snoc:
  "row_matches df (fs @ [p]) i \<longleftrightarrow>
     row_matches df fs i \<and> (active df p \<longrightarrow> cell_eq (cell df (fst p) i) (snd p))"
  by (auto simp: row_matches_def)

lemma row_matches_inactive:
  "\<not> active df p \<Longrightarrow> row_matches df (fs @ [p]) = row_matches df fs"
  by (simp add: fun_eq_iff row_matches_snoc)

lemma filter_step_mask:
  assumes len: "all_length n df" and dist: "distinct (columns df)"
  shows "filter_step df (take_rows (map (row_matches df fs) [0..<n]) df) p =
         take_rows (map (row_matches df (fs @ [p])) [0..<n]) df"
proof (cases "active df p")
  case False
  then show ?thesis by (simp add: filter_step_inactive row_matches_inactive)
next
  case True
  obtain c v where p: "p = (c, v)" by (cases p)
  from True p obtain col where col: "map_of df c = Some col"
    by (auto simp: active_def in_columns_iff)
  have lc: "length col = n" using len col by (rule all_length_map_of)
  let ?m = "map (row_matches df fs) [0..<n]"
  have "\<not> 1 < count_list (columns (take_rows ?m df)) c"
    using distinct_count [OF dist, of c] by (simp add: columns_take_rows)
  moreover have "map_of (take_rows ?m df) c = Some (select ?m col)"
    by (simp add: map_of_take_rows col)
  ultimately have "filter_rows (take_rows ?m df) c v =
      Inr (take_rows (series_eq (select ?m col) v) (take_rows ?m df))"
    by (rule filter_rows_unique)
  then have "filter_step df (take_rows ?m df) p =
        take_rows (map (\<lambda>y. cell_eq y v) (select ?m col)) (take_rows ?m df)"
    using True p by (simp add: filter_step_def active_def series_eq_def)
  also have "\<dots> = take_rows (map2 (\<lambda>b y. b \<and> cell_eq y v) ?m col) df"
    using len _ col by (rule take_rows_take_rows) simp
  also have "map2 (\<lambda>b y. b \<and> cell_eq y v) ?m col = map (row_matches df (fs @ [p])) [0..<n]"
  proof (rule nth_equalityI)
    show "length (map2 (\<lambda>b y. b \<and> cell_eq y v) ?m col) =
          length (map (row_matches df (fs @ [p])) [0..<n])"
      by (simp add: lc)
  next
    fix i assume "i < length (map2 (\<lambda>b y. b \<and> cell_eq y v) ?m col)"
    then have i: "i < n" by (simp add: lc)
    then show "map2 (\<lambda>b y. b \<and> cell_eq y v) ?m col ! i =
          map (row_matches df (fs @ [p])) [0..<n] ! i"
      using True by (simp add: lc row_matches_snoc p cell_def col)
  qed
  finally show ?thesis .
qed

lemma apply_filters_mask:
  assumes "all_length n df" "distinct (columns df)"
  shows "apply_filters df fs = take_rows (map (row_matches df fs) [0..<n]) df"
proof (induction fs rule: rev_induct)
  case Nil
  have "take_rows (map (row_matches df []) [0..<n]) df = df"
    using assms(1) by (rule take_rows_all_True) (simp_all add: row_matches_def list_all_iff)
  then show ?case by (simp add: apply_filters_def)
next
  case (snoc p fs)
  then show ?case
    using filter_step_mask [OF assms, of fs p]
    by (simp add: apply_filters_def)
qed

lemma wf_all_length: "wf_table df \<Longrightarrow> all_length (nrows df) df"
  by (simp add: wf_table_def all_length_def)

lemma wf_distinct: "wf_table df \<Longrightarrow> distinct (columns df)"
  by (simp add: wf_table_def)


lemma all_length_take_rows:
  "all_length n df \<Longrightarrow> length m = n \<Longrightarrow> all_length (length (filter id m)) (take_rows m df)"
  by (auto simp: all_length_iff take_rows_def length_select)












text \<open>
  Claim C5.  \<open>apply_filters\<close> is idempotent: filtering the filtered table once more with
  the same predicate set changes nothing.
\<close>

theorem apply_filters_idempotent:
  assumes "wf_table df"
  shows "apply_filters (apply_filters df fs) fs = apply_filters df fs"
proof -
  define n where "n = nrows df"
  define m where "m = map (row_matches df fs) [0..<n]"
  define r where "r = take_rows m df"
  define k where "k = length (filter id m)"
  have len: "all_length n df" using assms by (simp add: n_def wf_all_length)
  have dist: "distinct (columns df)" using assms by (rule wf_distinct)
  have r: "apply_filters df fs = r"
    using len dist by (simp add: r_def m_def apply_filters_mask)
  have lenr: "all_length k r"
    unfolding k_def r_def using len by (rule all_length_take_rows) (simp add: m_def)
  have distr: "distinct (columns r)" using dist by (simp add: r_def columns_take_rows)
  have ok: "row_matches r fs i" if i: "i < k" for i
    unfolding row_matches_def
  proof (intro ballI impI)
    fix p assume p: "p \<in> set fs" and act: "active r p"
    from act have actd: "active df p" by (simp add: active_def r_def columns_take_rows)
    then obtain col where col: "map_of df (fst p) = Some col"
      by (auto simp: active_def in_columns_iff)
    have lc: "length col = n" using len col by (rule all_length_map_of)
    have rc: "map_of r (fst p) = Some (select m col)"
      by (simp add: r_def map_of_take_rows col)
    have "length (select m col) = k"
      unfolding k_def by (rule length_select) (simp add: m_def lc)
    with i have "select m col ! i \<in> set (select m col)" by simp
    from set_select [OF this] obtain j where
      j: "j < length col" "j < length m" "m ! j" "select m col ! i = col ! j"
      by blast
    from j(1,3) lc have "row_matches df fs j" by (simp add: m_def)
    with p actd have "cell_eq (cell df (fst p) j) (snd p)" by (auto simp: row_matches_def)
    then show "cell_eq (cell r (fst p) i) (snd p)"
      by (simp add: cell_def rc col j(4))
  qed
  have "apply_filters r fs = take_rows (map (row_matches r fs) [0..<k]) r"
    using lenr distr by (rule apply_filters_mask)
  also have "\<dots> = r"
    using lenr by (rule take_rows_all_True) (simp_all add: list_all_iff ok)
  finally show ?thesis by (simp add: r)
qed

lemma example_filtered:
  "apply_filters example_table [(''Year'', Int64 1985), (''Country'', Str ''USA'')] =
     [(''Year'', [Int64 1985, Int64 1985]),
      (''Aboard'', [Int64 100, Int64 50]),
      (''Fatalities (Air)'', [Int64 20, Int64 50]),
      (''Country'', [Str ''USA'', Str ''USA'']),
      (''Survival Rate'', [Num (4 / 5), Num 0])]"
  by (simp add: apply_filters_def filter_step_def filter_rows_def getcol_def
      series_eq_def cell_eq_def take_rows_def columns_def example_table_def)

theorem apply_filters_idempotent_witness:
  "apply_filters (apply_filters example_table [(''Year'', Int64 1985), (''Country'', Str ''USA'')])
       [(''Year'', Int64 1985), (''Country'', Str ''USA'')] =
     apply_filters example_table [(''Year'', Int64 1985), (''Country'', Str ''USA'')]
   \<and> nrows (apply_filters example_table [(''Year'', Int64 1985), (''Country'', Str ''USA'')]) = 2"
proof -
  have w: "wf_table example_table"
    by (simp add: wf_table_def example_table_def columns_def nrows_def)
  have n: "nrows (apply_filters example_table [(''Year'', Int64 1985), (''Country'', Str ''USA'')]) = 2"
    by (simp add: example_filtered nrows_def)
  from apply_filters_idempotent [OF w, of "[(''Year'', Int64 1985), (''Country'', Str ''USA'')]"] n
  show ?thesis by simp
qed


section \<open>Properties of the aggregation by group\<close>
























end
